theory Spec2Isabelle
  imports Main "HOL-Library.AList"
begin

section \<open>Strings and characters\<close>

text \<open>
  A JavaScript string is modelled as a \<^typ>\<open>string\<close>, one \<^typ>\<open>char\<close> per UTF-16 code unit.
  A \<^typ>\<open>char\<close> has eight bits, so the model covers the strings whose code units are below 256
  (ASCII and Latin-1): route patterns written in source code and the percent-encoded path names
  of requests are of that kind. The backslash cannot be written inside an Isabelle string
  literal; it is the character \<open>bs\<close>.
\<close>

abbreviation bs :: char where
  "bs \<equiv> CHR 0x5C"

text \<open>
  Upper case of one code unit, as \<open>String.prototype.toUpperCase\<close> gives it when the result is
  again one code unit below 256: the ASCII letters and the Latin-1 letters 0xE0..0xFE (without
  the division sign 0xF7). Every other code unit below 256 either has no upper case or has one
  outside the range (0xB5, 0xDF, 0xFF); those are their own canonical form.
\<close>

definition toUpper :: "char \<Rightarrow> char" where
  "toUpper ch =
     (let n = (of_char ch :: nat)
      in if (97 \<le> n \<and> n \<le> 122) \<or> (224 \<le> n \<and> n \<le> 254 \<and> n \<noteq> 247) then char_of (n - 32) else ch)"

text \<open>\<open>toUpperCase\<close> is only applied to the method names of \<open>methods\<close>, which are ASCII.\<close>

definition toUpperCase :: "string \<Rightarrow> string" where
  "toUpperCase s = map toUpper s"

text \<open>ECMAScript \<open>Canonicalize\<close> without the \<open>u\<close> flag: upper case under the \<open>i\<close> flag.\<close>

definition Canonicalize :: "bool \<Rightarrow> char \<Rightarrow> char" where
  "Canonicalize ignoreCase ch = (if ignoreCase then toUpper ch else ch)"

text \<open>The characters of \<open>\w\<close>, of \<open>\d\<close>, and the line terminators that \<open>.\<close> does not match.\<close>

definition word_chars :: "char list" where
  "word_chars = ''abcdefghijklmnopqrstuvwxyzABCDEFGHIJKLMNOPQRSTUVWXYZ0123456789_''"

definition digit_chars :: "char list" where
  "digit_chars = ''0123456789''"

definition line_terminators :: "char list" where
  "line_terminators = [CHR 0x0A, CHR 0x0D]"

text \<open>
  The failures of the model. \<open>Error\<close>, \<open>SyntaxError\<close> and \<open>URIError\<close> are the JavaScript
  exceptions of those names. \<open>Unmodelled\<close> is not an exception: it marks an input on which the
  model of the JavaScript runtime is silent (regular-expression syntax outside the fragment
  below, a percent escape of a code unit above 127). No theorem concludes anything about the
  program from \<open>Unmodelled\<close>.
\<close>

datatype error = Error string | SyntaxError | URIError | Unmodelled

section \<open>Regular expressions of the JavaScript runtime\<close>

subsection \<open>Abstract syntax\<close>

text \<open>
  The fragment of ECMAScript patterns that \<open>compile\<close> writes and that its own five regular
  expression literals use: characters, \<open>.\<close>, character classes of single characters, \<open>\w\<close>
  and \<open>\d\<close>, the assertions \<open>^\<close> and \<open>$\<close>, sequence, alternation, capturing groups (numbered
  from 0 here, from 1 in JavaScript), and the quantifiers \<open>?\<close>, \<open>*\<close>, \<open>+\<close>, greedy (\<open>True\<close>) or
  lazy (\<open>False\<close>). A non-capturing group is its body.
\<close>

datatype class_item = Single char | WordChars | Digits

datatype regex =
    Eps
  | Chr char
  | Dot
  | Class bool "class_item list"
  | Bol
  | Eol
  | Seq regex regex
  | Alt regex regex
  | Group nat regex
  | Opt bool regex
  | Star bool regex
  | Plus bool regex

fun item_chars :: "class_item \<Rightarrow> char list" where
  "item_chars (Single a) = [a]"
| "item_chars WordChars = word_chars"
| "item_chars Digits = digit_chars"

text \<open>
  \<open>CharacterSetMatcher\<close>: a character is in the class when its canonical form is the
  canonical form of a member; \<open>Class True\<close> is the inverted class \<open>[^...]\<close>.
\<close>

definition class_has :: "bool \<Rightarrow> class_item list \<Rightarrow> char \<Rightarrow> bool" where
  "class_has ic items ch =
     (Canonicalize ic ch \<in> set (map (Canonicalize ic) (concat (map item_chars items))))"

fun groups_in :: "regex \<Rightarrow> nat list" where
  "groups_in (Seq r1 r2) = groups_in r1 @ groups_in r2"
| "groups_in (Alt r1 r2) = groups_in r1 @ groups_in r2"
| "groups_in (Group i r) = i # groups_in r"
| "groups_in (Opt g r) = groups_in r"
| "groups_in (Star g r) = groups_in r"
| "groups_in (Plus g r) = groups_in r"
| "groups_in _ = []"

subsection \<open>Backtracking matcher\<close>

text \<open>
  A match state is the input that is left and the captures so far (\<open>None\<close> is \<open>undefined\<close>).
  \<open>matcher ic n r x\<close> lists every state in which \<open>r\<close> can end when started in \<open>x\<close>, in the
  order in which the backtracking matcher of ECMAScript tries them; \<open>n\<close> is the length of the
  whole input, so the start of the input is where \<open>n\<close> characters are left. The first state of
  the list that the rest of the pattern accepts is the match.

  The quantifiers follow \<open>RepeatMatcher\<close>: the captures of the groups inside the repeated
  atom are cleared before every iteration; an iteration of \<open>?\<close> or \<open>*\<close> that consumes nothing
  is rejected; a greedy quantifier tries one more iteration first, a lazy one tries to stop
  first; \<open>+\<close> is one iteration followed by \<open>*\<close>.
\<close>

type_synonym captures = "string option list"
type_synonym mstate = "string \<times> captures"

definition clear :: "nat list \<Rightarrow> captures \<Rightarrow> captures" where
  "clear is cap = fold (\<lambda>i c. c[i := None]) is cap"

fun weight :: "regex \<Rightarrow> nat" where
  "weight (Seq r1 r2) = Suc (weight r1 + weight r2)"
| "weight (Alt r1 r2) = Suc (weight r1 + weight r2)"
| "weight (Group i r) = Suc (weight r)"
| "weight (Opt g r) = Suc (weight r)"
| "weight (Star g r) = Suc (weight r)"
| "weight (Plus g r) = Suc (Suc (weight r))"
| "weight _ = 0"

function (sequential) matcher :: "bool \<Rightarrow> nat \<Rightarrow> regex \<Rightarrow> mstate \<Rightarrow> mstate list" where
  "matcher ic n Eps x = [x]"
| "matcher ic n (Chr a) (s, cap) =
     (case s of [] \<Rightarrow> []
      | ch # s' \<Rightarrow> if Canonicalize ic ch = Canonicalize ic a then [(s', cap)] else [])"
| "matcher ic n Dot (s, cap) =
     (case s of [] \<Rightarrow> []
      | ch # s' \<Rightarrow> if ch \<in> set line_terminators then [] else [(s', cap)])"
| "matcher ic n (Class invert items) (s, cap) =
     (case s of [] \<Rightarrow> []
      | ch # s' \<Rightarrow> if class_has ic items ch \<noteq> invert then [(s', cap)] else [])"
| "matcher ic n Bol (s, cap) = (if length s = n then [(s, cap)] else [])"
| "matcher ic n Eol (s, cap) = (if s = [] then [(s, cap)] else [])"
| "matcher ic n (Seq r1 r2) x = concat (map (matcher ic n r2) (matcher ic n r1 x))"
| "matcher ic n (Alt r1 r2) x = matcher ic n r1 x @ matcher ic n r2 x"
| "matcher ic n (Group i r) (s, cap) =
     map (\<lambda>(s', cap'). (s', cap'[i := Some (take (length s - length s') s)]))
       (matcher ic n r (s, cap))"
| "matcher ic n (Opt greedy r) (s, cap) =
     (let once = filter (\<lambda>(s', cap'). length s' < length s)
                   (matcher ic n r (s, clear (groups_in r) cap))
      in if greedy then once @ [(s, cap)] else (s, cap) # once)"
| "matcher ic n (Star greedy r) (s, cap) =
     (let more = concat (map (\<lambda>(s', cap'). if length s' < length s
                                   then matcher ic n (Star greedy r) (s', cap') else [])
                   (matcher ic n r (s, clear (groups_in r) cap)))
      in if greedy then more @ [(s, cap)] else (s, cap) # more)"
| "matcher ic n (Plus greedy r) (s, cap) =
     concat (map (matcher ic n (Star greedy r)) (matcher ic n r (s, clear (groups_in r) cap)))"
  by pat_completeness auto
termination
  by (relation "inv_image (less_than <*lex*> less_than) (\<lambda>(ic, n, r, s, cap). (weight r, length s))")
     auto

subsection \<open>Reading a pattern source\<close>

datatype quantifier = Question | Asterisk | PlusSign

datatype token =
    TAtom regex
  | TAssert regex
  | TQuant quantifier bool
  | TOpen
  | TOpenNamed string
  | TOpenNC
  | TClose
  | TBar

text \<open>
  The syntax characters and \<open>/\<close> may be escaped with a backslash to stand for themselves; \<open>\w\<close>
  and \<open>\d\<close> are the two class escapes of the fragment. Every other escape is \<open>Unmodelled\<close>.
\<close>

definition syntax_chars :: "char list" where
  "syntax_chars = ''^$.*+?()[]{}|/'' @ [bs]"

definition atom_escape :: "char \<Rightarrow> regex option" where
  "atom_escape e =
     (if e = CHR ''w'' then Some (Class False [WordChars])
      else if e = CHR ''d'' then Some (Class False [Digits])
      else if e \<in> set syntax_chars then Some (Chr e)
      else None)"

definition class_escape :: "char \<Rightarrow> class_item option" where
  "class_escape e =
     (if e = CHR ''w'' then Some WordChars
      else if e = CHR ''d'' then Some Digits
      else if e \<in> set syntax_chars \<or> e = CHR ''-'' then Some (Single e)
      else None)"

definition quantifier_of :: "char \<Rightarrow> quantifier option" where
  "quantifier_of c =
     (if c = CHR ''?'' then Some Question
      else if c = CHR ''*'' then Some Asterisk
      else if c = CHR ''+'' then Some PlusSign
      else None)"

text \<open>
  A group name is an identifier. Names of ASCII letters, digits, \<open>$\<close> and \<open>_\<close> are modelled; a
  name that is empty or starts with a digit is a \<open>SyntaxError\<close>; any other name is left
  \<open>Unmodelled\<close>.
\<close>

definition id_start :: "char list" where
  "id_start = ''abcdefghijklmnopqrstuvwxyzABCDEFGHIJKLMNOPQRSTUVWXYZ$_''"

definition id_part :: "char list" where
  "id_part = id_start @ digit_chars"

definition group_name :: "string \<Rightarrow> error + string" where
  "group_name name =
     (if name = [] then Inl SyntaxError
      else if hd name \<in> set digit_chars then Inl SyntaxError
      else if hd name \<in> set id_start \<and> set name \<subseteq> set id_part then Inr name
      else Inl Unmodelled)"

fun bind_tok :: "token \<Rightarrow> error + token list \<Rightarrow> error + token list" where
  "bind_tok t (Inl e) = Inl e"
| "bind_tok t (Inr ts) = Inr (t # ts)"

text \<open>
  The lexer. \<open>lex\<close> reads the pattern, \<open>lex_class\<close> the inside of \<open>[...]\<close> and \<open>lex_name\<close> the
  name in \<open>(?<name>\<close>. Ranges in classes, braces, a bare \<open>]\<close>, look-around groups and the
  escapes that are not listed above are \<open>Unmodelled\<close>.
\<close>

fun lex :: "string \<Rightarrow> error + token list"
  and lex_class :: "bool \<Rightarrow> class_item list \<Rightarrow> string \<Rightarrow> error + token list"
  and lex_name :: "string \<Rightarrow> string \<Rightarrow> error + token list" where
  "lex [] = Inr []"
| "lex (c # cs) =
     (if c = bs then
        (case cs of
           [] \<Rightarrow> Inl SyntaxError
         | e # rest \<Rightarrow>
             (case atom_escape e of
                None \<Rightarrow> Inl Unmodelled
              | Some a \<Rightarrow> bind_tok (TAtom a) (lex rest)))
      else if c = CHR ''['' then
        (case cs of
           [] \<Rightarrow> Inl SyntaxError
         | c1 # cs1 \<Rightarrow> if c1 = CHR ''^'' then lex_class True [] cs1 else lex_class False [] cs)
      else if c = CHR ''('' then
        (case cs of
           [] \<Rightarrow> bind_tok TOpen (lex cs)
         | c1 # cs1 \<Rightarrow>
             if c1 \<noteq> CHR ''?'' then bind_tok TOpen (lex cs)
             else (case cs1 of
                     [] \<Rightarrow> Inl SyntaxError
                   | c2 # cs2 \<Rightarrow>
                       if c2 = CHR '':'' then bind_tok TOpenNC (lex cs2)
                       else if c2 = CHR ''<'' then lex_name [] cs2
                       else Inl Unmodelled))
      else if c = CHR '')'' then bind_tok TClose (lex cs)
      else if c = CHR ''|'' then bind_tok TBar (lex cs)
      else if c = CHR ''.'' then bind_tok (TAtom Dot) (lex cs)
      else if c = CHR ''^'' then bind_tok (TAssert Bol) (lex cs)
      else if c = CHR ''$'' then bind_tok (TAssert Eol) (lex cs)
      else if c \<in> set ''{}]'' then Inl Unmodelled
      else (case quantifier_of c of
              None \<Rightarrow> bind_tok (TAtom (Chr c)) (lex cs)
            | Some q \<Rightarrow>
                (case cs of
                   [] \<Rightarrow> bind_tok (TQuant q True) (lex cs)
                 | c1 # cs1 \<Rightarrow>
                     if c1 = CHR ''?'' then bind_tok (TQuant q False) (lex cs1)
                     else bind_tok (TQuant q True) (lex cs))))"
| "lex_class invert acc [] = Inl SyntaxError"
| "lex_class invert acc (c # cs) =
     (if c = CHR '']'' then bind_tok (TAtom (Class invert (rev acc))) (lex cs)
      else if c = bs then
        (case cs of
           [] \<Rightarrow> Inl SyntaxError
         | e # rest \<Rightarrow>
             (case class_escape e of
                None \<Rightarrow> Inl Unmodelled
              | Some it \<Rightarrow> lex_class invert (it # acc) rest))
      else if c = CHR ''-'' then Inl Unmodelled
      else lex_class invert (Single c # acc) cs)"
| "lex_name acc [] = Inl Unmodelled"
| "lex_name acc (c # cs) =
     (if c = CHR ''>'' then
        (case group_name (rev acc) of
           Inl e \<Rightarrow> Inl e
         | Inr name \<Rightarrow> bind_tok (TOpenNamed name) (lex cs))
      else lex_name (c # acc) cs)"

text \<open>
  The parser works on a stack of open groups. A frame holds how the group was opened, the
  alternatives that are finished and the terms of the current alternative, both latest
  first. The flag \<open>q\<close> says whether the latest term may take a quantifier: an atom or a closed
  group may, an assertion or a quantified term may not (``nothing to repeat''). Capturing
  groups are numbered in the order of their opening parentheses. Two groups of one name are
  a \<open>SyntaxError\<close> unless they lie in different alternatives: the constructor below raises it
  for a pattern without \<open>|\<close>, and with a \<open>|\<close> the parser leaves them \<open>Unmodelled\<close>.
\<close>

datatype opener = Top | NonCapturing | Capturing nat

fun seq_of :: "regex list \<Rightarrow> regex" where
  "seq_of [] = Eps"
| "seq_of [r] = r"
| "seq_of (r # rs) = Seq r (seq_of rs)"

fun alt_of :: "regex list \<Rightarrow> regex" where
  "alt_of [] = Eps"
| "alt_of [r] = r"
| "alt_of (r # rs) = Alt r (alt_of rs)"

definition disjunction :: "regex list \<Rightarrow> regex list \<Rightarrow> regex" where
  "disjunction alts cur = alt_of (rev (seq_of (rev cur) # alts))"

fun quantify :: "quantifier \<Rightarrow> bool \<Rightarrow> regex \<Rightarrow> regex" where
  "quantify Question g r = Opt g r"
| "quantify Asterisk g r = Star g r"
| "quantify PlusSign g r = Plus g r"

fun close_group :: "opener \<Rightarrow> regex \<Rightarrow> regex" where
  "close_group (Capturing i) r = Group i r"
| "close_group _ r = r"

type_synonym frame = "opener \<times> regex list \<times> regex list"

fun parse :: "token list \<Rightarrow> frame \<Rightarrow> frame list \<Rightarrow> bool \<Rightarrow> nat \<Rightarrow> (string \<times> nat) list
    \<Rightarrow> error + (regex \<times> nat \<times> (string \<times> nat) list)" where
  "parse [] (k, alts, cur) ps q n nm =
     (if ps = [] then Inr (disjunction alts cur, n, nm) else Inl SyntaxError)"
| "parse (TAtom a # ts) (k, alts, cur) ps q n nm = parse ts (k, alts, a # cur) ps True n nm"
| "parse (TAssert a # ts) (k, alts, cur) ps q n nm = parse ts (k, alts, a # cur) ps False n nm"
| "parse (TQuant qt g # ts) (k, alts, cur) ps q n nm =
     (case cur of
        [] \<Rightarrow> Inl SyntaxError
      | a # cur' \<Rightarrow>
          if q then parse ts (k, alts, quantify qt g a # cur') ps False n nm
          else Inl SyntaxError)"
| "parse (TBar # ts) (k, alts, cur) ps q n nm =
     parse ts (k, seq_of (rev cur) # alts, []) ps False n nm"
| "parse (TOpen # ts) f ps q n nm = parse ts (Capturing n, [], []) (f # ps) False (Suc n) nm"
| "parse (TOpenNamed name # ts) f ps q n nm =
     (if name \<in> fst ` set nm then Inl Unmodelled
      else parse ts (Capturing n, [], []) (f # ps) False (Suc n) (nm @ [(name, n)]))"
| "parse (TOpenNC # ts) f ps q n nm = parse ts (NonCapturing, [], []) (f # ps) False n nm"
| "parse (TClose # ts) (k, alts, cur) ps q n nm =
     (case ps of
        [] \<Rightarrow> Inl SyntaxError
      | (k', alts', cur') # ps' \<Rightarrow>
          parse ts (k', alts', close_group k (disjunction alts cur) # cur') ps' True n nm)"

text \<open>
  A regular expression object: the pattern, the number of capturing groups, the named groups
  with their numbers in the order of the pattern, and the flags \<open>i\<close> and \<open>g\<close>.
\<close>

record regexp =
  ast :: regex
  ngroups :: nat
  names :: "(string \<times> nat) list"
  ignoreCase :: bool
  global :: bool

definition parse_flags :: "string \<Rightarrow> error + (bool \<times> bool)" where
  "parse_flags fl =
     (if \<not> distinct fl then Inl SyntaxError
      else if set fl \<subseteq> set ''gi'' then Inr (CHR ''g'' \<in> set fl, CHR ''i'' \<in> set fl)
      else if set fl \<subseteq> set ''dgimsuvy'' then Inl Unmodelled
      else Inl SyntaxError)"

text \<open>The names of the named groups of a pattern, in the order of the pattern.\<close>

fun group_names :: "token list \<Rightarrow> string list" where
  "group_names [] = []"
| "group_names (TOpenNamed name # ts) = name # group_names ts"
| "group_names (t # ts) = group_names ts"

text \<open>The constructor \<open>RegExp(source, flags)\<close>.\<close>

definition RegExp :: "string \<Rightarrow> string \<Rightarrow> error + regexp" where
  "RegExp src fl =
     (case parse_flags fl of
        Inl e \<Rightarrow> Inl e
      | Inr (g, i) \<Rightarrow>
          (case lex src of
             Inl e \<Rightarrow> Inl e
           | Inr toks \<Rightarrow>
               if \<not> distinct (group_names toks) \<and> TBar \<notin> set toks then Inl SyntaxError
               else (case parse toks (Top, [], []) [] False 0 [] of
                       Inl e \<Rightarrow> Inl e
                     | Inr (r, n, nm) \<Rightarrow>
                         Inr \<lparr>ast = r, ngroups = n, names = nm, ignoreCase = i,
                              global = g\<rparr>)))"

subsection \<open>Executing a regular expression\<close>

definition lookup :: "captures \<Rightarrow> nat \<Rightarrow> string option" where
  "lookup cap i = (if i < length cap then cap ! i else None)"

text \<open>
  The match at a position is the first state that the whole pattern can end in, started there
  with every capture \<open>undefined\<close>.
\<close>

definition first :: "'a list \<Rightarrow> 'a option" where
  "first xs = (case xs of [] \<Rightarrow> None | x # _ \<Rightarrow> Some x)"

definition match_here :: "regexp \<Rightarrow> nat \<Rightarrow> string \<Rightarrow> mstate option" where
  "match_here re n s =
     first (matcher (ignoreCase re) n (ast re) (s, replicate (ngroups re) None))"

text \<open>
  \<open>RegExpBuiltinExec\<close> tries the positions from left to right, the end of the input
  included. The result is the input left at the start of the match and the final state.
\<close>

fun search :: "regexp \<Rightarrow> nat \<Rightarrow> string \<Rightarrow> (string \<times> mstate) option" where
  "search re n [] = map_option (Pair []) (match_here re n [])"
| "search re n (c # s) =
     (case match_here re n (c # s) of
        Some x \<Rightarrow> Some (c # s, x)
      | None \<Rightarrow> search re n s)"

text \<open>
  The match object: \<open>groups\<close> is \<open>undefined\<close> (\<open>None\<close>) when the pattern has no named group,
  and otherwise holds every named group, in the order of the pattern, with its capture.
\<close>

record match =
  index :: nat
  matched :: string
  captures :: captures
  groups :: "(string \<times> string option) list option"

definition mk_match :: "regexp \<Rightarrow> string \<Rightarrow> string \<times> mstate \<Rightarrow> match" where
  "mk_match re str found =
     (case found of (s, s', cap) \<Rightarrow>
        \<lparr>index = length str - length s,
         matched = take (length s - length s') s,
         captures = cap,
         groups = (if names re = [] then None
                   else Some (map (\<lambda>(name, i). (name, lookup cap i)) (names re)))\<rparr>)"

text \<open>\<open>regexp.exec(str)\<close> for a regular expression without the \<open>g\<close> flag.\<close>

definition exec :: "regexp \<Rightarrow> string \<Rightarrow> match option" where
  "exec re str = map_option (mk_match re str) (search re (length str) str)"

subsection \<open>String.prototype.replace\<close>

definition digit_val :: "char \<Rightarrow> nat option" where
  "digit_val c = map_of (zip digit_chars [0 ..< 10]) c"

definition capture_ref :: "captures \<Rightarrow> nat \<Rightarrow> string \<Rightarrow> string" where
  "capture_ref cap i ref =
     (if 1 \<le> i \<and> i \<le> length cap
      then (case cap ! (i - 1) of None \<Rightarrow> [] | Some v \<Rightarrow> v)
      else ref)"

text \<open>
  \<open>GetSubstitution\<close> expands the replacement text: \<open>$$\<close>, \<open>$&\<close>, the text before and after
  the match, \<open>$n\<close> and \<open>$nn\<close> (a group that does not exist leaves the text as it is, an
  \<open>undefined\<close> capture gives the empty string) and \<open>$<name>\<close>.
\<close>

function GetSubstitution :: "match \<Rightarrow> string \<Rightarrow> string \<Rightarrow> string" where
  "GetSubstitution m str [] = []"
| "GetSubstitution m str (c # t) =
     (if c \<noteq> CHR ''$'' then c # GetSubstitution m str t
      else (case t of
        [] \<Rightarrow> ''$''
      | d # t' \<Rightarrow>
          if d = CHR ''$'' then CHR ''$'' # GetSubstitution m str t'
          else if d = CHR 0x60 then take (index m) str @ GetSubstitution m str t'
          else if d = CHR ''&'' then matched m @ GetSubstitution m str t'
          else if d = CHR 0x27 then
            drop (index m + length (matched m)) str @ GetSubstitution m str t'
          else if d = CHR ''<'' then
            (case groups m of
               None \<Rightarrow> ''$<'' @ GetSubstitution m str t'
             | Some g \<Rightarrow>
                 if CHR ''>'' \<notin> set t' then ''$<'' @ GetSubstitution m str t'
                 else (case map_of g (takeWhile (\<lambda>x. x \<noteq> CHR ''>'') t') of
                         Some (Some v) \<Rightarrow> v
                       | _ \<Rightarrow> [])
                      @ GetSubstitution m str (drop 1 (dropWhile (\<lambda>x. x \<noteq> CHR ''>'') t')))
          else (case digit_val d of
            None \<Rightarrow> CHR ''$'' # GetSubstitution m str t
          | Some d1 \<Rightarrow>
              (case (case t' of [] \<Rightarrow> None | e # _ \<Rightarrow> digit_val e) of
                 Some d2 \<Rightarrow>
                   if 10 * d1 + d2 \<le> length (captures m)
                   then capture_ref (captures m) (10 * d1 + d2) [c, d, hd t']
                        @ GetSubstitution m str (tl t')
                   else capture_ref (captures m) d1 [c, d] @ GetSubstitution m str t'
               | None \<Rightarrow> capture_ref (captures m) d1 [c, d] @ GetSubstitution m str t'))))"
  by pat_completeness auto
termination
  apply (relation "measure (\<lambda>(m, str, t). length t)")
  apply simp_all
  subgoal for m c t d t' g
    using length_dropWhile_le[of "\<lambda>x. x \<noteq> CHR ''>''" t'] by simp
  done

text \<open>
  Replacing with a \<open>g\<close> regular expression walks the string from left to right. At a position
  inside the previous match (\<open>k\<close> of its characters are still to be skipped) nothing is tried.
  Elsewhere the pattern is tried at the position: without a match the character is kept; with
  a match the substitution is written and the walk goes on behind the match, or, after an
  empty match, one character further, which is kept. This is the loop of
  \<open>RegExp.prototype[Symbol.replace]\<close> with \<open>lastIndex\<close> advanced as the standard says.
\<close>

fun replace_scan :: "regexp \<Rightarrow> string \<Rightarrow> string \<Rightarrow> nat \<Rightarrow> string \<Rightarrow> string" where
  "replace_scan re replaceValue str k [] =
     (if 0 < k then []
      else (case match_here re (length str) [] of
              None \<Rightarrow> []
            | Some x \<Rightarrow> GetSubstitution (mk_match re str ([], x)) str replaceValue))"
| "replace_scan re replaceValue str k (c # s) =
     (if 0 < k then replace_scan re replaceValue str (k - 1) s
      else (case match_here re (length str) (c # s) of
              None \<Rightarrow> c # replace_scan re replaceValue str 0 s
            | Some x \<Rightarrow>
                GetSubstitution (mk_match re str (c # s, x)) str replaceValue @
                (if matched (mk_match re str (c # s, x)) = []
                 then c # replace_scan re replaceValue str 0 s
                 else replace_scan re replaceValue str
                        (length (matched (mk_match re str (c # s, x))) - 1) s)))"

text \<open>\<open>str.replace(re, replaceValue)\<close>; without the \<open>g\<close> flag only the first match is replaced.\<close>

definition replace :: "string \<Rightarrow> regexp \<Rightarrow> string \<Rightarrow> string" where
  "replace str re replaceValue =
     (if global re then replace_scan re replaceValue str 0 str
      else (case search re (length str) str of
              None \<Rightarrow> str
            | Some found \<Rightarrow>
                take (index (mk_match re str found)) str @
                GetSubstitution (mk_match re str found) str replaceValue @
                drop (index (mk_match re str found) + length (matched (mk_match re str found))) str))"

text \<open>
  A regular expression literal of the source: the text between the slashes, read by the same
  constructor. The five literals of \<open>compile\<close> are inside the fragment (lemmas below), so the
  second case is never taken for them.
\<close>

definition literal :: "string \<Rightarrow> string \<Rightarrow> regexp" where
  "literal src fl =
     (case RegExp src fl of
        Inr re \<Rightarrow> re
      | Inl e \<Rightarrow> \<lparr>ast = Class False [], ngroups = 0, names = [], ignoreCase = False, global = False\<rparr>)"

subsection \<open>decodeURIComponent\<close>

definition hex_val :: "char \<Rightarrow> nat option" where
  "hex_val c = map_of (zip ''0123456789abcdefABCDEF'' ([0 ..< 16] @ [10 ..< 16])) c"

text \<open>
  \<open>escapes k s\<close> reads \<open>k\<close> escapes \<open>%XX\<close> at the head of \<open>s\<close> and gives their values, if they are
  there. \<open>valid_utf8\<close> is the table of the well-formed UTF-8 sequences of two, three and four
  octets (no overlong form, no surrogate, nothing above U+10FFFF).
\<close>

fun escapes :: "nat \<Rightarrow> string \<Rightarrow> nat list option" where
  "escapes 0 s = Some []"
| "escapes (Suc k) (p # h1 # h2 # rest) =
     (if p = CHR ''%'' then
        (case (hex_val h1, hex_val h2) of
           (Some a, Some b) \<Rightarrow> map_option ((#) (16 * a + b)) (escapes k rest)
         | _ \<Rightarrow> None)
      else None)"
| "escapes (Suc k) s = None"

definition continuation_octet :: "nat \<Rightarrow> bool" where
  "continuation_octet b = (128 \<le> b \<and> b \<le> 191)"

definition valid_utf8 :: "nat list \<Rightarrow> bool" where
  "valid_utf8 octets =
     (case octets of
        [b1, b2] \<Rightarrow> 194 \<le> b1 \<and> b1 \<le> 223 \<and> continuation_octet b2
      | [b1, b2, b3] \<Rightarrow>
          (b1 = 224 \<and> 160 \<le> b2 \<and> b2 \<le> 191
           \<or> 225 \<le> b1 \<and> b1 \<le> 236 \<and> continuation_octet b2
           \<or> b1 = 237 \<and> 128 \<le> b2 \<and> b2 \<le> 159
           \<or> 238 \<le> b1 \<and> b1 \<le> 239 \<and> continuation_octet b2)
          \<and> continuation_octet b3
      | [b1, b2, b3, b4] \<Rightarrow>
          (b1 = 240 \<and> 144 \<le> b2 \<and> b2 \<le> 191
           \<or> 241 \<le> b1 \<and> b1 \<le> 243 \<and> continuation_octet b2
           \<or> b1 = 244 \<and> 128 \<le> b2 \<and> b2 \<le> 143)
          \<and> continuation_octet b3 \<and> continuation_octet b4
      | _ \<Rightarrow> False)"

text \<open>
  Percent-decoding (\<open>Decode\<close> with the empty reserved set). A \<open>%\<close> that is not followed by two
  hexadecimal digits is a \<open>URIError\<close>. An escape below 0x80 is that character. An escape from
  0x80 on is the first octet of a UTF-8 sequence: the octets 0x80 to 0xBF and 0xF8 to 0xFF
  cannot start one, the others ask for one, two or three more escapes, and the octets read
  must be well-formed UTF-8, or the result is a \<open>URIError\<close>. The code points U+0080 to U+00FF
  (two octets, the first 0xC2 or 0xC3) are characters of \<^typ>\<open>char\<close>. A well-formed sequence
  for a code point from U+0100 on gives a code unit outside \<^typ>\<open>char\<close>: \<open>Unmodelled\<close>.
\<close>

fun decodeURIComponent :: "string \<Rightarrow> error + string" where
  "decodeURIComponent [] = Inr []"
| "decodeURIComponent (c # cs) =
     (if c \<noteq> CHR ''%'' then map_sum id ((#) c) (decodeURIComponent cs)
      else (case cs of
              h1 # h2 # rest \<Rightarrow>
                (case (hex_val h1, hex_val h2) of
                   (Some a, Some b) \<Rightarrow>
                     if 16 * a + b < 128
                     then map_sum id ((#) (char_of (16 * a + b))) (decodeURIComponent rest)
                     else if 16 * a + b < 192 \<or> 248 \<le> 16 * a + b then Inl URIError
                     else if 16 * a + b < 224 then
                       (case rest of
                          p # h3 # h4 # rest2 \<Rightarrow>
                            (case (p = CHR ''%'', hex_val h3, hex_val h4) of
                               (True, Some a2, Some b2) \<Rightarrow>
                                 if \<not> valid_utf8 [16 * a + b, 16 * a2 + b2] then Inl URIError
                                 else if 16 * a + b < 196
                                 then map_sum id
                                        ((#) (char_of (64 * (16 * a + b - 192)
                                                       + (16 * a2 + b2 - 128))))
                                        (decodeURIComponent rest2)
                                 else Inl Unmodelled
                             | _ \<Rightarrow> Inl URIError)
                        | _ \<Rightarrow> Inl URIError)
                     else (case escapes (if 16 * a + b < 240 then 2 else 3) rest of
                             None \<Rightarrow> Inl URIError
                           | Some octets \<Rightarrow>
                               if valid_utf8 ((16 * a + b) # octets) then Inl Unmodelled
                               else Inl URIError)
                 | _ \<Rightarrow> Inl URIError)
            | _ \<Rightarrow> Inl URIError))"

section \<open>The path compiler\<close>

text \<open>
  \<open>options\<close> of \<open>tinyRouter\<close>: a field that is absent (\<open>undefined\<close>) is \<open>None\<close>, and the
  destructuring \<open>{ sensitive = false, trailing = true } = options\<close> supplies the defaults.
\<close>

record options =
  sensitive :: "bool option"
  trailing :: "bool option"

definition is_sensitive :: "options \<Rightarrow> bool" where
  "is_sensitive opts = (case sensitive opts of None \<Rightarrow> False | Some b \<Rightarrow> b)"

definition is_trailing :: "options \<Rightarrow> bool" where
  "is_trailing opts = (case trailing opts of None \<Rightarrow> True | Some b \<Rightarrow> b)"

text \<open>
  The five literals of \<open>compile\<close>, in the order of the source:
  \<^verbatim>\<open>/\/+(\/|$)/g\<close>, \<^verbatim>\<open>/(\/?\.?):(\w+)\+/g\<close>, \<^verbatim>\<open>/(\/?\.?):(\w+)/g\<close>, \<^verbatim>\<open>/\./g\<close> and \<^verbatim>\<open>/(\/?)\*/g\<close>.
\<close>

definition slashes_re :: regexp where
  "slashes_re = literal (bs # ''/+('' @ bs # ''/|$)'') ''g''"

definition greedy_re :: regexp where
  "greedy_re = literal (''('' @ bs # ''/?'' @ bs # ''.?):('' @ bs # ''w+)'' @ bs # ''+'') ''g''"

definition named_re :: regexp where
  "named_re = literal (''('' @ bs # ''/?'' @ bs # ''.?):('' @ bs # ''w+)'') ''g''"

definition dot_re :: regexp where
  "dot_re = literal (bs # ''.'') ''g''"

definition wildcard_re :: regexp where
  "wildcard_re = literal (''('' @ bs # ''/?)'' @ bs # ''*'') ''g''"

text \<open>The chain of five \<open>replace\<close> calls that turns the path into \<open>pattern\<close>.\<close>

definition rewrite :: "string \<Rightarrow> string" where
  "rewrite path =
     replace (replace (replace (replace (replace path
       slashes_re ''$1'')
       greedy_re ''($1(?<$2>*))'')
       named_re ''($1(?<$2>[^$1/]+?))'')
       dot_re (bs # ''.''))
       wildcard_re ''($1.*)?''"

definition compile :: "string \<Rightarrow> options \<Rightarrow> error + regexp" where
  "compile path opts =
     (let pattern = rewrite path;
          patternWithTrailing =
            (if is_trailing opts then pattern @ ''(?:'' @ bs # ''/)?'' else pattern);
          flags = (if is_sensitive opts then [] else ''i'')
      in RegExp (''^'' @ patternWithTrailing @ ''$'') flags)"

section \<open>The router\<close>

subsection \<open>Host application\<close>

text \<open>
  The request context. \<open>req_method\<close>, \<open>req_pathname\<close>, \<open>req_params\<close> and \<open>req_routePath\<close> are
  \<open>ctx.req.method\<close>, \<open>ctx.req.pathname\<close>, \<open>ctx.req.params\<close> and \<open>ctx.req.routePath\<close>; the last
  two are \<open>undefined\<close> (\<open>None\<close>) until a route matches. \<open>state\<close> stands for everything else a
  handler may read or write. The context is mutated in place in the source; here every step
  takes the context and hands the updated one on. A middleware gets the context and \<open>next\<close>,
  the rest of the pipeline; an exception (a rejected promise) is \<open>Inl\<close>.
\<close>

type_synonym params = "(string \<times> string option) list"

record 's ctx =
  req_method :: string
  req_pathname :: string
  req_params :: "params option"
  req_routePath :: "string option"
  state :: 's

type_synonym 's continuation = "'s ctx \<Rightarrow> error + 's ctx"
type_synonym 's middleware = "'s ctx \<Rightarrow> 's continuation \<Rightarrow> error + 's ctx"

text \<open>
  Modelled from the spec: \<open>compose\<close> of the host framework, which is imported and not part of
  the sources. The spec (4.4, out-of-scope pipeline) has the steps run in order, each one
  given the context and a ``continue'' that runs the steps after it; the last step continues
  with the continuation of the whole. The guard of the framework against a step that calls
  ``continue'' twice is not modelled.
\<close>

fun compose :: "'s middleware list \<Rightarrow> 's middleware" where
  "compose [] ctx next = next ctx"
| "compose (fn # fns) ctx next = fn ctx (\<lambda>ctx'. compose fns ctx' next)"

text \<open>
  Modelled from the spec: the application object of the host framework, reduced to its
  ordered list of middleware; \<open>app.use(fn)\<close> appends and returns the application, and a request
  runs the composed list.
\<close>

record 's app =
  middleware :: "'s middleware list"

definition use :: "'s app \<Rightarrow> 's middleware \<Rightarrow> 's app" where
  "use app fn = app\<lparr>middleware := middleware app @ [fn]\<rparr>"

definition handle :: "'s app \<Rightarrow> 's ctx \<Rightarrow> error + 's ctx" where
  "handle app ctx = compose (middleware app) ctx Inr"

subsection \<open>Parameter decoding and method matching\<close>

text \<open>\<open>decode\<close>: a falsy value (\<open>undefined\<close> or the empty string) gives \<open>undefined\<close>.\<close>

definition decode :: "string option \<Rightarrow> error + string option" where
  "decode val =
     (case val of
        None \<Rightarrow> Inr None
      | Some v \<Rightarrow> if v = [] then Inr None else map_sum id Some (decodeURIComponent v))"

text \<open>
  \<open>params[key] = value\<close> on the object literal \<open>{}\<close>. The key \<open>__proto__\<close> is the accessor of
  \<open>Object.prototype\<close>, whose setter ignores a string and \<open>undefined\<close>: no property is created.
\<close>

definition assign :: "params \<Rightarrow> string \<Rightarrow> string option \<Rightarrow> params" where
  "assign params key v = (if key = ''__proto__'' then params else AList.update key v params)"

text \<open>The loop over \<open>Object.entries(m.groups)\<close>; the first failing \<open>decode\<close> ends it.\<close>

fun decode_entries :: "(string \<times> string option) list \<Rightarrow> params \<Rightarrow> error + params" where
  "decode_entries [] params = Inr params"
| "decode_entries ((key, val) # es) params =
     (case decode val of
        Inl e \<Rightarrow> Inl e
      | Inr v \<Rightarrow> decode_entries es (assign params key v))"

text \<open>
  The construction of \<open>params\<close> in \<open>routeMiddleware\<close>: the empty object when \<open>m.groups\<close> is
  \<open>undefined\<close>, the loop otherwise.
\<close>

definition collect_params :: "(string \<times> string option) list option \<Rightarrow> error + params" where
  "collect_params gs = (case gs of None \<Rightarrow> Inr [] | Some g \<Rightarrow> decode_entries g [])"

text \<open>\<open>matches\<close>: the route method is \<open>None\<close> for \<open>app.all\<close>; \<open>!method\<close> also holds for \<open>''\<close>.\<close>

definition matches :: "'s ctx \<Rightarrow> string option \<Rightarrow> bool" where
  "matches ctx method =
     (if method = None \<or> method = Some [] then True
      else if Some (req_method ctx) = method then True
      else if method = Some ''GET'' \<and> req_method ctx = ''HEAD'' then True
      else False)"

subsection \<open>Routes\<close>

text \<open>The closure \<open>routeMiddleware\<close> that \<open>createRoute\<close> returns, with what it closes over.\<close>

definition routeMiddleware ::
    "string option \<Rightarrow> string \<Rightarrow> regexp \<Rightarrow> 's middleware \<Rightarrow> 's middleware" where
  "routeMiddleware method path regexp composed ctx next =
     (if \<not> matches ctx method then next ctx
      else (case exec regexp (req_pathname ctx) of
              None \<Rightarrow> next ctx
            | Some m \<Rightarrow>
                (case collect_params (groups m) of
                   Inl e \<Rightarrow> Inl e
                 | Inr params \<Rightarrow>
                     composed (ctx\<lparr>req_params := Some params, req_routePath := Some path\<rparr>)
                       next)))"

definition createRoute ::
    "string option \<Rightarrow> string \<Rightarrow> 's middleware list \<Rightarrow> options \<Rightarrow> error + 's middleware" where
  "createRoute method path handlers opts =
     (case compile path opts of
        Inl e \<Rightarrow> Inl e
      | Inr regexp \<Rightarrow>
          Inr (routeMiddleware method path regexp
                 (if length handlers = 1 then handlers ! 0 else compose handlers)))"

text \<open>
  The function that \<open>createRouteMethod(method)\<close> returns, applied to the application it was
  installed on, the path and the handlers. The result is the application with the route
  appended, or the exception. \<open>method_or_ALL\<close> is \<open>method || 'ALL'\<close>.
\<close>

definition method_or_ALL :: "string option \<Rightarrow> string" where
  "method_or_ALL method = (case method of None \<Rightarrow> ''ALL'' | Some m \<Rightarrow> if m = [] then ''ALL'' else m)"

definition createRouteMethod ::
    "options \<Rightarrow> string option \<Rightarrow> 's app \<Rightarrow> string \<Rightarrow> 's middleware list \<Rightarrow> error + 's app" where
  "createRouteMethod opts method app path handlers =
     (if length handlers = 0 then
        Inl (Error (''Route '' @ method_or_ALL method @ '' '' @ path
                    @ '' must have at least one handler''))
      else (case createRoute method path handlers opts of
              Inl e \<Rightarrow> Inl e
            | Inr route \<Rightarrow> Inr (use app route)))"

definition methods :: "string list" where
  "methods = [''options'', ''head'', ''get'', ''post'', ''put'', ''patch'', ''delete'']"

text \<open>
  \<open>tinyRouter(options)\<close> installs one helper per name of \<open>methods\<close> and the helper \<open>all\<close>;
  \<open>tinyRouter opts name\<close> is the helper installed under \<open>name\<close>. Leaving \<open>options\<close> out
  (\<open>None\<close>) gives \<open>{}\<close>.
\<close>

definition tinyRouter ::
    "options option \<Rightarrow> string
       \<Rightarrow> ('s app \<Rightarrow> string \<Rightarrow> 's middleware list \<Rightarrow> error + 's app) option" where
  "tinyRouter options name =
     (let opts = (case options of None \<Rightarrow> \<lparr>sensitive = None, trailing = None\<rparr> | Some given \<Rightarrow> given)
      in if name \<in> set methods then Some (createRouteMethod opts (Some (toUpperCase name)))
         else if name = ''all'' then Some (createRouteMethod opts None)
         else None)"

subsection \<open>Requests and handlers of the test suite\<close>

text \<open>
  A fresh request, and three handlers in the style of the tests, with a list of names as the
  state: \<open>pass_on\<close> only continues, \<open>visit name\<close> records its name and continues, \<open>reply name\<close>
  records its name and does not continue.
\<close>

definition request :: "string \<Rightarrow> string \<Rightarrow> string list ctx" where
  "request method pathname =
     \<lparr>req_method = method, req_pathname = pathname, req_params = None, req_routePath = None,
      state = []\<rparr>"

definition pass_on :: "string list middleware" where
  "pass_on ctx next = next ctx"

definition visit :: "string \<Rightarrow> string list middleware" where
  "visit name ctx next = next (ctx\<lparr>state := state ctx @ [name]\<rparr>)"

definition reply :: "string \<Rightarrow> string list middleware" where
  "reply name ctx next = Inr (ctx\<lparr>state := state ctx @ [name]\<rparr>)"

definition no_options :: options where
  "no_options = \<lparr>sensitive = None, trailing = None\<rparr>"

definition no_routes :: "string list app" where
  "no_routes = \<lparr>middleware = []\<rparr>"

section \<open>Notions used in the statements\<close>



definition lits :: "string \<Rightarrow> regex \<Rightarrow> regex" where
  "lits cs r = foldr (\<lambda>c. Seq (Chr c)) cs r"

text \<open>
  The first rule of the spec (4.1, rule 1), in its words: consecutive path separators are
  collapsed into one, and one trailing separator is stripped. These two functions are what
  the first \<open>replace\<close> of \<open>compile\<close> is compared with; they are not used by the model of the
  code.
\<close>

fun collapse :: "string \<Rightarrow> string" where
  "collapse (c # d # s) =
     (if c = CHR ''/'' \<and> d = CHR ''/'' then collapse (d # s) else c # collapse (d # s))"
| "collapse s = s"


section \<open>Lemmas\<close>

text \<open>
  The equation of \<open>*\<close> unfolds into itself; it is used by hand where needed.
\<close>

declare matcher.simps(11) [simp del]

subsection \<open>Named groups and the parameter mapping\<close>

lemma parse_names_distinct:
  "parse toks f ps q n nm = Inr (r, n', nm') \<Longrightarrow> distinct (map fst nm) \<Longrightarrow> distinct (map fst nm')"
  by (induction toks f ps q n nm rule: parse.induct)
     (auto split: if_splits list.splits)

lemma RegExp_names_distinct: "RegExp src fl = Inr re \<Longrightarrow> distinct (map fst (names re))"
  by (auto simp: RegExp_def split: sum.splits if_splits dest!: parse_names_distinct)

lemma compile_names_distinct: "compile path opts = Inr re \<Longrightarrow> distinct (map fst (names re))"
  by (auto simp: compile_def Let_def dest: RegExp_names_distinct)

lemma groups_keys:
  "groups (mk_match re str found) = Some g \<Longrightarrow> map fst g = map fst (names re)"
  by (auto simp: mk_match_def split: prod.splits if_splits)

lemma exec_groups_keys:
  "exec re str = Some m \<Longrightarrow> groups m = Some g \<Longrightarrow> map fst g = map fst (names re)"
  by (auto simp: exec_def dest: groups_keys)

lemma assign_lookup:
  "map_of (assign params k d) key =
     (if key = k \<and> k \<noteq> ''__proto__'' then Some d else map_of params key)"
  by (simp add: assign_def update_conv')

lemma decode_entries_lookup:
  "decode_entries g ps0 = Inr ps \<Longrightarrow> distinct (map fst g) \<Longrightarrow>
     map_of ps key =
       (if key \<in> fst ` set g \<and> key \<noteq> ''__proto__''
        then (case decode (the (map_of g key)) of Inr d \<Rightarrow> Some d | Inl e \<Rightarrow> None)
        else map_of ps0 key)"
proof (induction g ps0 rule: decode_entries.induct)
  case (1 params)
  then show ?case by simp
next
  case (2 k val es params)
  from 2(2) obtain d where d: "decode val = Inr d"
    and r: "decode_entries es (assign params k d) = Inr ps"
    by (auto split: sum.splits)
  from 2(3) have dist: "distinct (map fst es)" and nk: "k \<notin> fst ` set es" by auto
  note ih = 2(1)[OF d r dist]
  show ?case
  proof (cases "key \<in> fst ` set es")
    case True
    with nk have "key \<noteq> k" by auto
    with ih True show ?thesis by (auto simp: assign_lookup)
  next
    case False
    with ih have "map_of ps key = map_of (assign params k d) key" by simp
    with False d show ?thesis by (auto simp: assign_lookup)
  qed
qed

lemma decode_entries_all_decoded:
  "decode_entries g ps0 = Inr ps \<Longrightarrow> (key, val) \<in> set g \<Longrightarrow> \<exists>d. decode val = Inr d"
proof (induction g ps0 rule: decode_entries.induct)
  case (1 params)
  then show ?case by simp
next
  case (2 k v es params)
  then show ?case by (auto split: sum.splits)
qed

lemma map_sum_Inl_iff: "(map_sum id f x = Inl e) = (x = Inl e)"
  by (cases x) auto

lemma decodeURIComponent_error:
  "decodeURIComponent v = Inl e \<Longrightarrow> e = URIError \<or> e = Unmodelled"
proof (induction v rule: decodeURIComponent.induct)
  case 1
  then show ?case by simp
next
  case (2 c cs)
  note ih1 = 2(1) and ih2 = 2(2) and ih3 = 2(3) and prem = 2(4)
  show ?case
  proof (cases "c = CHR ''%''")
    case False
    with ih1 prem show ?thesis by (simp add: map_sum_Inl_iff)
  next
    case True
    note pc = True
    show ?thesis
    proof (cases cs)
      case Nil
      with pc prem show ?thesis by simp
    next
      case (Cons h1 cs1)
      note c1 = Cons
      show ?thesis
      proof (cases cs1)
        case Nil
        with pc c1 prem show ?thesis by simp
      next
        case (Cons h2 rest)
        note c2 = Cons
        show ?thesis
        proof (cases "hex_val h1")
          case None
          with pc c1 c2 prem show ?thesis by simp
        next
          case (Some a)
          note ha = Some
          show ?thesis
          proof (cases "hex_val h2")
            case None
            with pc c1 c2 ha prem show ?thesis by simp
          next
            case (Some b)
            note hb = Some
            let ?B = "16 * a + b"
            have e: "(hex_val h1, hex_val h2) = (Some a, Some b)" using ha hb by simp
            consider "?B < 128" | "128 \<le> ?B" "?B < 192 \<or> 248 \<le> ?B"
              | "192 \<le> ?B" "?B < 224" | "224 \<le> ?B" "?B < 248" by linarith
            then show ?thesis
            proof cases
              case 1
              from prem pc c1 c2 ha hb 1 have d: "decodeURIComponent rest = Inl e"
                by (simp add: map_sum_Inl_iff)
              from ih2[of h1 cs1 h2 rest "hex_val h1" "hex_val h2" a b] pc c1 c2 ha hb 1 d
              show ?thesis by simp
            next
              case 2
              with prem pc c1 c2 ha hb show ?thesis by auto
            next
              case 3
              then have n1: "\<not> ?B < 128" and n2: "\<not> (?B < 192 \<or> 248 \<le> ?B)" by auto
              show ?thesis
              proof (cases "e = URIError \<or> e = Unmodelled")
                case True
                then show ?thesis .
              next
                case False
                with prem pc c1 c2 ha hb n1 n2 3(2)
                obtain p h3 h4 rest2 a2 b2 where r: "rest = p # h3 # h4 # rest2"
                  and p: "p = CHR ''%''" and h3: "hex_val h3 = Some a2" and h4: "hex_val h4 = Some b2"
                  and v: "valid_utf8 [?B, 16 * a2 + b2]" and lt: "?B < 196"
                  and d: "decodeURIComponent rest2 = Inl e"
                  by (auto simp: map_sum_Inl_iff split: list.splits option.splits if_splits bool.splits)
                from ih3[of h1 cs1 h2 rest "hex_val h1" "hex_val h2" a b p "h3 # h4 # rest2" h3
                    "h4 # rest2" h4 rest2 "p = CHR ''%''"
                    "(hex_val h3, hex_val h4)" "hex_val h3" "hex_val h4" a2 b2]
                  pc c1 c2 ha hb n1 n2 3(2) r p h3 h4 v lt d
                show ?thesis by simp
              qed
            next
              case 4
              with prem pc c1 c2 ha hb show ?thesis
                by (auto split: option.splits if_splits)
            qed
          qed
        qed
      qed
    qed
  qed
qed

lemma decode_error: "decode val = Inl e \<Longrightarrow> \<exists>v. val = Some v \<and> v \<noteq> [] \<and> decodeURIComponent v = Inl e"
  by (cases val; cases "decodeURIComponent (the val)") (auto simp: decode_def split: if_splits)

lemma decode_entries_error:
  "decode_entries g ps = Inl e \<Longrightarrow>
     \<exists>key v. (key, Some v) \<in> set g \<and> v \<noteq> [] \<and> decodeURIComponent v = Inl e"
proof (induction g ps rule: decode_entries.induct)
  case (1 params)
  then show ?case by simp
next
  case (2 k val es params)
  show ?case
  proof (cases "decode val")
    case (Inl e')
    with 2(2) have "e' = e" by simp
    with Inl decode_error[of val e] show ?thesis by auto
  next
    case (Inr d)
    with 2(2) have "decode_entries es (assign params k d) = Inl e" by simp
    from 2(1)[OF Inr this] show ?thesis by auto
  qed
qed

lemma decode_entries_URIError:
  assumes "(key, Some v) \<in> set g" and "v \<noteq> []" and "decodeURIComponent v = Inl URIError"
    and "\<forall>k w. (k, Some w) \<in> set g \<longrightarrow> decodeURIComponent w \<noteq> Inl Unmodelled"
  shows "decode_entries g ps = Inl URIError"
proof (cases "decode_entries g ps")
  case (Inl e)
  from decode_entries_error[OF Inl] obtain k w where "(k, Some w) \<in> set g"
    and w: "decodeURIComponent w = Inl e" by blast
  with assms(4) have "e \<noteq> Unmodelled" by auto
  with decodeURIComponent_error[OF w] Inl show ?thesis by simp
next
  case (Inr ps')
  from decode_entries_all_decoded[OF Inr assms(1)] assms(2,3) show ?thesis
    by (auto simp: decode_def)
qed



subsection \<open>The first match and anchored patterns\<close>

lemma first_simps [simp]: "first [] = None" "first (x # xs) = Some x"
  by (simp_all add: first_def)



lemma lits_simps [simp]: "lits [] r = r" "lits (c # cs) r = Seq (Chr c) (lits cs r)"
  by (simp_all add: lits_def)

lemma matcher_lits:
  "matcher ic n (lits cs r) (s, cap) =
     (if map (Canonicalize ic) (take (length cs) s) = map (Canonicalize ic) cs
      then matcher ic n r (drop (length cs) s, cap) else [])"
proof (induction cs arbitrary: s)
  case Nil
  then show ?case by simp
next
  case (Cons c cs)
  show ?case
  proof (cases s)
    case Nil
    then show ?thesis by simp
  next
    case (Cons ch s')
    with Cons.IH[of s'] show ?thesis by simp
  qed
qed

lemma search_anchored:
  "ast re = Seq Bol r \<Longrightarrow> length s < n \<Longrightarrow> search re n s = None"
  by (induction s) (simp_all add: match_here_def)

lemma exec_anchored:
  assumes "ast re = Seq Bol r"
  shows "exec re str = map_option (\<lambda>x. mk_match re str (str, x)) (match_here re (length str) str)"
proof (cases str)
  case Nil
  then show ?thesis by (simp add: exec_def option.map_comp comp_def)
next
  case (Cons c s)
  then show ?thesis
    using search_anchored[OF assms, of s "length str"]
    by (simp add: exec_def split: option.splits)
qed

lemma exec_anchored_None:
  assumes "ast re = Seq Bol r"
  shows "(exec re str = None) = (matcher (ignoreCase re) (length str) r (str, replicate (ngroups re) None) = [])"
  by (simp add: exec_anchored[OF assms] match_here_def first_def assms split: list.splits)

lemma tail_Eol: "(matcher ic n Eol (s, cap) = []) = (s \<noteq> [])"
  by simp

lemma tail_trailing:
  "(matcher ic n (Seq (Opt True (Chr CHR ''/'')) Eol) (s, cap) = [])
     = (s \<noteq> [] \<and> map (Canonicalize ic) s \<noteq> map (Canonicalize ic) ''/'')"
  by (cases s; cases "tl s") (auto simp: clear_def)

lemma map_eq_append_split:
  "(map f p = map f (a @ b)) =
     (map f (take (length a) p) = map f a \<and> map f (drop (length a) p) = map f b)"
proof -
  have "(map f p = map f a @ map f b) =
     (take (length (map f a)) (map f p) = map f a \<and> drop (length (map f a)) (map f p) = map f b)"
    by (metis append_eq_conv_conj)
  then show ?thesis by (simp only: map_append take_map drop_map length_map)
qed

lemma static_language:
  assumes "ast re = Seq Bol (lits cs (if t then Seq (Opt True (Chr CHR ''/'')) Eol else Eol))"
  shows "(exec re p \<noteq> None) =
     (map (Canonicalize (ignoreCase re)) p = map (Canonicalize (ignoreCase re)) cs
      \<or> t \<and> map (Canonicalize (ignoreCase re)) p = map (Canonicalize (ignoreCase re)) (cs @ ''/''))"
proof -
  let ?c = "Canonicalize (ignoreCase re)"
  let ?hd = "map ?c (take (length cs) p) = map ?c cs"
  let ?tl = "drop (length cs) p"
  let ?tail = "if t then Seq (Opt True (Chr CHR ''/'')) Eol else Eol"
  have e1: "(map ?c p = map ?c cs) = (?hd \<and> ?tl = [])"
    using map_eq_append_split[of ?c p cs "[]"] by simp
  have e2: "(map ?c p = map ?c (cs @ ''/'')) = (?hd \<and> map ?c ?tl = map ?c ''/'')"
    by (rule map_eq_append_split)
  have a: "(exec re p \<noteq> None) =
      (matcher (ignoreCase re) (length p) (lits cs ?tail) (p, replicate (ngroups re) None) \<noteq> [])"
    using exec_anchored_None[OF assms, of p] by simp
  have b: "(matcher (ignoreCase re) (length p) (lits cs ?tail) (p, replicate (ngroups re) None) \<noteq> [])
     = (?hd \<and> matcher (ignoreCase re) (length p) ?tail (?tl, replicate (ngroups re) None) \<noteq> [])"
    by (simp only: matcher_lits) simp
  have c: "(matcher (ignoreCase re) (length p) ?tail (?tl, replicate (ngroups re) None) \<noteq> [])
     = (?tl = [] \<or> t \<and> map ?c ?tl = map ?c ''/'')"
  proof (cases t)
    case True
    have "(matcher (ignoreCase re) (length p) (Seq (Opt True (Chr CHR ''/'')) Eol)
             (?tl, replicate (ngroups re) None) \<noteq> [])
        = (?tl = [] \<or> map ?c ?tl = map ?c ''/'')"
      using tail_trailing[of "ignoreCase re" "length p" ?tl "replicate (ngroups re) None"] by blast
    with True show ?thesis by (simp only: if_True) simp
  next
    case False
    have "(matcher (ignoreCase re) (length p) Eol (?tl, replicate (ngroups re) None) \<noteq> [])
        = (?tl = [])"
      using tail_Eol[of "ignoreCase re" "length p" ?tl "replicate (ngroups re) None"] by blast
    with False show ?thesis by (simp only: if_False) simp
  qed
  show ?thesis
    unfolding a b c e1 e2 by blast
qed

lemma compile_users:
  "compile ''/users'' opts =
     Inr \<lparr>ast = Seq Bol (lits ''/users''
                   (if is_trailing opts then Seq (Opt True (Chr CHR ''/'')) Eol else Eol)),
          ngroups = 0, names = [], ignoreCase = \<not> is_sensitive opts, global = False\<rparr>"
proof -
  have r: "rewrite ''/users'' = ''/users''" by code_simp
  have 1: "RegExp (''^'' @ ''/users'' @ ''(?:'' @ bs # ''/)?'' @ ''$'') ''i'' =
     Inr \<lparr>ast = Seq Bol (lits ''/users'' (Seq (Opt True (Chr CHR ''/'')) Eol)),
          ngroups = 0, names = [], ignoreCase = True, global = False\<rparr>" by code_simp
  have 2: "RegExp (''^'' @ ''/users'' @ ''(?:'' @ bs # ''/)?'' @ ''$'') [] =
     Inr \<lparr>ast = Seq Bol (lits ''/users'' (Seq (Opt True (Chr CHR ''/'')) Eol)),
          ngroups = 0, names = [], ignoreCase = False, global = False\<rparr>" by code_simp
  have 3: "RegExp (''^'' @ ''/users'' @ ''$'') ''i'' =
     Inr \<lparr>ast = Seq Bol (lits ''/users'' Eol),
          ngroups = 0, names = [], ignoreCase = True, global = False\<rparr>" by code_simp
  have 4: "RegExp (''^'' @ ''/users'' @ ''$'') [] =
     Inr \<lparr>ast = Seq Bol (lits ''/users'' Eol),
          ngroups = 0, names = [], ignoreCase = False, global = False\<rparr>" by code_simp
  show ?thesis
    unfolding compile_def Let_def r using 1 2 3 4 by (cases "is_trailing opts"; cases "is_sensitive opts") simp_all
qed

lemma compile_Hoa:
  "compile ''/Hoa'' opts =
     Inr \<lparr>ast = Seq Bol (lits ''/Hoa''
                   (if is_trailing opts then Seq (Opt True (Chr CHR ''/'')) Eol else Eol)),
          ngroups = 0, names = [], ignoreCase = \<not> is_sensitive opts, global = False\<rparr>"
proof -
  have r: "rewrite ''/Hoa'' = ''/Hoa''" by code_simp
  have 1: "RegExp (''^'' @ ''/Hoa'' @ ''(?:'' @ bs # ''/)?'' @ ''$'') ''i'' =
     Inr \<lparr>ast = Seq Bol (lits ''/Hoa'' (Seq (Opt True (Chr CHR ''/'')) Eol)),
          ngroups = 0, names = [], ignoreCase = True, global = False\<rparr>" by code_simp
  have 2: "RegExp (''^'' @ ''/Hoa'' @ ''(?:'' @ bs # ''/)?'' @ ''$'') [] =
     Inr \<lparr>ast = Seq Bol (lits ''/Hoa'' (Seq (Opt True (Chr CHR ''/'')) Eol)),
          ngroups = 0, names = [], ignoreCase = False, global = False\<rparr>" by code_simp
  have 3: "RegExp (''^'' @ ''/Hoa'' @ ''$'') ''i'' =
     Inr \<lparr>ast = Seq Bol (lits ''/Hoa'' Eol),
          ngroups = 0, names = [], ignoreCase = True, global = False\<rparr>" by code_simp
  have 4: "RegExp (''^'' @ ''/Hoa'' @ ''$'') [] =
     Inr \<lparr>ast = Seq Bol (lits ''/Hoa'' Eol),
          ngroups = 0, names = [], ignoreCase = False, global = False\<rparr>" by code_simp
  show ?thesis
    unfolding compile_def Let_def r using 1 2 3 4
    by (cases "is_trailing opts"; cases "is_sensitive opts") simp_all
qed

subsection \<open>Where a capture comes from\<close>




lemma clear_length [simp]: "length (clear js cap) = length cap"
  unfolding clear_def by (induction js arbitrary: cap) auto



lemma clear_Nil [simp]: "clear [] cap = cap"
  by (simp add: clear_def)








subsection \<open>The first result of a greedy parameter\<close>













subsection \<open>The results of a named parameter and of a wildcard\<close>



lemma slash_not_terminator: "CHR ''/'' \<notin> set line_terminators"
  by (simp add: line_terminators_def)












declare matcher.simps [simp del]







subsection \<open>The five literals and the first \<open>replace\<close>\<close>


lemma greedy_re_parsed:
  "RegExp (''('' @ bs # ''/?'' @ bs # ''.?):('' @ bs # ''w+)'' @ bs # ''+'') ''g'' =
     Inr \<lparr>ast = Seq (Group 0 (Seq (Opt True (Chr CHR ''/'')) (Opt True (Chr CHR ''.''))))
                  (Seq (Chr CHR '':'')
                     (Seq (Group 1 (Plus True (Class False [WordChars]))) (Chr CHR ''+''))),
          ngroups = 2, names = [], ignoreCase = False, global = True\<rparr>"
  by code_simp

lemma named_re_parsed:
  "RegExp (''('' @ bs # ''/?'' @ bs # ''.?):('' @ bs # ''w+)'') ''g'' =
     Inr \<lparr>ast = Seq (Group 0 (Seq (Opt True (Chr CHR ''/'')) (Opt True (Chr CHR ''.''))))
                  (Seq (Chr CHR '':'') (Group 1 (Plus True (Class False [WordChars])))),
          ngroups = 2, names = [], ignoreCase = False, global = True\<rparr>"
  by code_simp

lemma dot_re_parsed:
  "RegExp (bs # ''.'') ''g'' =
     Inr \<lparr>ast = Chr CHR ''.'', ngroups = 0, names = [], ignoreCase = False, global = True\<rparr>"
  by code_simp

lemma wildcard_re_parsed:
  "RegExp (''('' @ bs # ''/?)'' @ bs # ''*'') ''g'' =
     Inr \<lparr>ast = Seq (Group 0 (Opt True (Chr CHR ''/''))) (Chr CHR ''*''),
          ngroups = 1, names = [], ignoreCase = False, global = True\<rparr>"
  by code_simp















lemma collapse_Nil_iff [simp]: "(collapse s = []) = (s = [])"
  by (induction s rule: collapse.induct) auto













section \<open>The claims\<close>



text \<open>
  C2, as amended. For a route that \<open>createRoute\<close> built, a request whose method matches, whose
  path the compiled matcher matches, and whose captures all percent-decode without error:
  the step calls the composed handler chain (the one handler, or \<open>compose\<close> of several) with
  the same continuation \<open>next\<close>, on the context with \<open>params\<close> and \<open>routePath\<close> overwritten by the
  decoded mapping and the original pattern. Every named group except one named \<open>__proto__\<close>
  has its decoded capture in the mapping, and the mapping has no other keys. For two routes
  registered for one method and path on an empty application, the request runs the first
  handler with the second route as its continuation: the second handler runs, after the
  first, when the first continues.
\<close>

theorem route_dispatch:
  assumes "createRoute method path handlers opts = Inr route"
    and "compile path opts = Inr regexp"
    and "matches ctx method"
    and "exec regexp (req_pathname ctx) = Some m"
    and "collect_params (groups m) = Inr ps"
  shows "route ctx next =
           (if length handlers = 1 then handlers ! 0 else compose handlers)
             (ctx\<lparr>req_params := Some ps, req_routePath := Some path\<rparr>) next
       \<and> (\<forall>g key val. groups m = Some g \<and> (key, val) \<in> set g \<and> key \<noteq> ''__proto__''
             \<longrightarrow> (\<exists>d. decode val = Inr d \<and> map_of ps key = Some d))
       \<and> (\<forall>key. key \<in> fst ` set ps \<longrightarrow> key \<in> fst ` set (names regexp))
       \<and> (\<forall>h1 h2 app1 app2.
             createRouteMethod opts method \<lparr>middleware = []\<rparr> path [h1] = Inr app1
             \<and> createRouteMethod opts method app1 path [h2] = Inr app2
             \<longrightarrow> handle app2 ctx =
                   h1 (ctx\<lparr>req_params := Some ps, req_routePath := Some path\<rparr>)
                      (\<lambda>ctx'. routeMiddleware method path regexp h2 ctx' Inr))"
proof -
  have a: "route ctx next =
           (if length handlers = 1 then handlers ! 0 else compose handlers)
             (ctx\<lparr>req_params := Some ps, req_routePath := Some path\<rparr>) next"
    using assms by (auto simp: createRoute_def routeMiddleware_def)
  have b: "\<exists>d. decode val = Inr d \<and> map_of ps key = Some d"
    if "groups m = Some g" "(key, val) \<in> set g" "key \<noteq> ''__proto__''" for g key val
  proof -
    from exec_groups_keys[OF assms(4) that(1)] compile_names_distinct[OF assms(2)]
    have dist: "distinct (map fst g)" by simp
    from assms(5) that(1) have de: "decode_entries g [] = Inr ps"
      by (simp add: collect_params_def)
    from that(2) dist have mo: "map_of g key = Some val" by simp
    from that(2) have "key \<in> fst ` set g" by force
    with decode_entries_lookup[OF de dist, of key] that(3) mo
    have l: "map_of ps key = (case decode val of Inr d \<Rightarrow> Some d | Inl e \<Rightarrow> None)" by simp
    from decode_entries_all_decoded[OF de that(2)] obtain d where "decode val = Inr d" ..
    with l show ?thesis by simp
  qed
  have c: "key \<in> fst ` set (names regexp)" if "key \<in> fst ` set ps" for key
  proof (cases "groups m")
    case None
    with assms(5) have "ps = []" by (simp add: collect_params_def)
    with that show ?thesis by simp
  next
    case (Some g)
    from exec_groups_keys[OF assms(4) Some] compile_names_distinct[OF assms(2)]
    have keys: "map fst g = map fst (names regexp)" and dist: "distinct (map fst g)" by simp_all
    from assms(5) Some have de: "decode_entries g [] = Inr ps" by (simp add: collect_params_def)
    from that have "map_of ps key \<noteq> None" by (simp add: map_of_eq_None_iff)
    with decode_entries_lookup[OF de dist, of key] have "key \<in> fst ` set g"
      by (auto split: if_splits)
    then have "key \<in> set (map fst g)" by simp
    with keys show ?thesis by simp
  qed
  have d: "handle app2 ctx =
             h1 (ctx\<lparr>req_params := Some ps, req_routePath := Some path\<rparr>)
                (\<lambda>ctx'. routeMiddleware method path regexp h2 ctx' Inr)"
    if "createRouteMethod opts method \<lparr>middleware = []\<rparr> path [h1] = Inr app1"
      "createRouteMethod opts method app1 path [h2] = Inr app2" for h1 h2 app1 app2
  proof -
    from that(1) assms(2) have a1: "app1 = \<lparr>middleware = [routeMiddleware method path regexp h1]\<rparr>"
      by (auto simp: createRouteMethod_def createRoute_def use_def)
    from that(2) assms(2) a1
    have a2: "app2 = \<lparr>middleware = [routeMiddleware method path regexp h1,
                                    routeMiddleware method path regexp h2]\<rparr>"
      by (auto simp: createRouteMethod_def createRoute_def use_def)
    show ?thesis using assms(3-5) by (simp add: a2 handle_def routeMiddleware_def)
  qed
  from a b c d show ?thesis by blast
qed

text \<open>
  Witness for C2: the route \<open>GET /hoa/:var\<close> with one handler on the request \<open>GET /hoa/val\<close>
  (the test ``ctx.req.routePath records matched route pattern'').
\<close>

theorem route_dispatch_witness:
  "projr (createRoute (Some ''GET'') ''/hoa/:var'' [reply ''hoa''] no_options)
     (request ''GET'' ''/hoa/val'') Inr
   = Inr ((request ''GET'' ''/hoa/val'')
       \<lparr>req_params := Some [(''var'', Some ''val'')], req_routePath := Some ''/hoa/:var'',
        state := [''hoa'']\<rparr>)"
proof -
  have "\<not> isl (compile ''/hoa/:var'' no_options)" by code_simp
  then obtain re where c: "compile ''/hoa/:var'' no_options = Inr re"
    by (cases "compile ''/hoa/:var'' no_options") auto
  have r: "createRoute (Some ''GET'') ''/hoa/:var'' [reply ''hoa''] no_options
      = Inr (projr (createRoute (Some ''GET'') ''/hoa/:var'' [reply ''hoa''] no_options))"
    by (simp add: createRoute_def c)
  have mt: "matches (request ''GET'' ''/hoa/val'') (Some ''GET'')"
    by (simp add: matches_def request_def)
  have "map_option groups (exec (projr (compile ''/hoa/:var'' no_options)) ''/hoa/val'')
      = Some (Some [(''var'', Some ''val'')])"
    by code_simp
  then obtain m where x: "exec re (req_pathname (request ''GET'' ''/hoa/val'')) = Some m"
    and g: "groups m = Some [(''var'', Some ''val'')]"
    by (auto simp: c request_def)
  have "collect_params (Some [(''var'', Some ''val'')]) = Inr [(''var'', Some ''val'')]"
    by code_simp
  with g have p: "collect_params (groups m) = Inr [(''var'', Some ''val'')]" by simp
  from route_dispatch[OF r c mt x p, of Inr]
  show ?thesis by (simp add: reply_def request_def)
qed

text \<open>
  Counterexample to C2 as stated: the route \<open>GET /:id\<close> and the request \<open>GET /%\<close>. The method
  matches and the matcher matches with the capture \<open>%\<close>, but decoding it raises \<open>URIError\<close>:
  the handler, which would answer, is not called.
\<close>

theorem route_dispatch_counterexample:
  "matches (request ''GET'' ''/%'') (Some ''GET'')
   \<and> map_option groups (exec (projr (compile ''/:id'' no_options)) ''/%'')
       = Some (Some [(''id'', Some ''%'')])
   \<and> projr (createRoute (Some ''GET'') ''/:id'' [reply ''id''] no_options)
       (request ''GET'' ''/%'') Inr = Inl URIError"
proof -
  have "matches (request ''GET'' ''/%'') (Some ''GET'')"
    by (simp add: matches_def request_def)
  moreover have "map_option groups (exec (projr (compile ''/:id'' no_options)) ''/%'')
       = Some (Some [(''id'', Some ''%'')])"
    by code_simp
  moreover have "projr (createRoute (Some ''GET'') ''/:id'' [reply ''id''] no_options)
       (request ''GET'' ''/%'') Inr = Inl URIError"
    by code_simp
  ultimately show ?thesis by blast
qed



text \<open>
  C4. \<open>decode\<close> gives \<open>undefined\<close> for an absent and for an empty capture, without decoding,
  and otherwise what \<open>decodeURIComponent\<close> gives: \<open>a%2Fb\<close> decodes to \<open>a/b\<close>, and a malformed
  escape (\<open>%\<close>, \<open>%zz\<close>, the lone continuation octet \<open>%80\<close>) raises \<open>URIError\<close>. Nothing catches
  it: when the method and the path match and the decoding of a capture raises \<open>URIError\<close>, the
  whole step ends with that \<open>URIError\<close>, whatever the handlers and the continuation are (stated
  where no capture of the match leaves the characters of the model). The pattern
  \<open>/docs/:path+\<close> matches \<open>/docs/\<close> with the empty capture for \<open>path\<close>, and the handler sees
  \<open>params.path\<close> undefined.
\<close>

theorem decode_undefined_and_failure:
  "decode None = Inr None \<and> decode (Some []) = Inr None
   \<and> (v \<noteq> [] \<longrightarrow> decode (Some v) = map_sum id Some (decodeURIComponent v))
   \<and> decodeURIComponent ''a%2Fb'' = Inr ''a/b''
   \<and> decodeURIComponent ''%'' = Inl URIError
   \<and> decodeURIComponent ''%zz'' = Inl URIError
   \<and> decodeURIComponent ''%80'' = Inl URIError
   \<and> (matches ctx method \<longrightarrow> exec regexp (req_pathname ctx) = Some m \<longrightarrow> groups m = Some g
        \<longrightarrow> (key, Some v) \<in> set g \<longrightarrow> v \<noteq> [] \<longrightarrow> decodeURIComponent v = Inl URIError
        \<longrightarrow> (\<forall>k w. (k, Some w) \<in> set g \<longrightarrow> decodeURIComponent w \<noteq> Inl Unmodelled)
        \<longrightarrow> routeMiddleware method path regexp composed ctx next = Inl URIError)
   \<and> map_option groups (exec (projr (compile ''/docs/:path+'' no_options)) ''/docs/'')
        = Some (Some [(''path'', Some [])])
   \<and> routeMiddleware (Some ''GET'') ''/docs/:path+'' (projr (compile ''/docs/:path+'' no_options))
        (reply ''docs'') (request ''GET'' ''/docs/'') Inr
        = Inr ((request ''GET'' ''/docs/'')
            \<lparr>req_params := Some [(''path'', None)], req_routePath := Some ''/docs/:path+'',
             state := [''docs'']\<rparr>)"
proof -
  have a: "decode None = Inr None" "decode (Some []) = Inr None"
    by (simp_all add: decode_def)
  have b: "v \<noteq> [] \<longrightarrow> decode (Some v) = map_sum id Some (decodeURIComponent v)"
    by (simp add: decode_def)
  have x: "decodeURIComponent ''a%2Fb'' = Inr ''a/b''" "decodeURIComponent ''%'' = Inl URIError"
    "decodeURIComponent ''%zz'' = Inl URIError" "decodeURIComponent ''%80'' = Inl URIError"
    by code_simp+
  have c: "matches ctx method \<longrightarrow> exec regexp (req_pathname ctx) = Some m \<longrightarrow> groups m = Some g
        \<longrightarrow> (key, Some v) \<in> set g \<longrightarrow> v \<noteq> [] \<longrightarrow> decodeURIComponent v = Inl URIError
        \<longrightarrow> (\<forall>k w. (k, Some w) \<in> set g \<longrightarrow> decodeURIComponent w \<noteq> Inl Unmodelled)
        \<longrightarrow> routeMiddleware method path regexp composed ctx next = Inl URIError"
    using decode_entries_URIError[of key v g "[]"]
    by (simp add: routeMiddleware_def collect_params_def)
  have d: "map_option groups (exec (projr (compile ''/docs/:path+'' no_options)) ''/docs/'')
        = Some (Some [(''path'', Some [])])"
    by code_simp
  have e: "routeMiddleware (Some ''GET'') ''/docs/:path+'' (projr (compile ''/docs/:path+'' no_options))
        (reply ''docs'') (request ''GET'' ''/docs/'') Inr
        = Inr ((request ''GET'' ''/docs/'')
            \<lparr>req_params := Some [(''path'', None)], req_routePath := Some ''/docs/:path+'',
             state := [''docs'']\<rparr>)"
    by code_simp
  show ?thesis
    apply (intro conjI)
    apply (rule a b x c d e)+
    done
qed

text \<open>
  Witness for C4: the request \<open>GET /%\<close> on the route \<open>GET /:id\<close> ends with \<open>URIError\<close>, and
  \<open>decode\<close> of \<open>a%2Fb\<close> is \<open>a/b\<close>.
\<close>

theorem decode_undefined_and_failure_witness:
  "routeMiddleware (Some ''GET'') ''/:id'' (projr (compile ''/:id'' no_options))
         (reply ''id'') (request ''GET'' ''/%'') Inr = Inl URIError
   \<and> decode (Some ''a%2Fb'') = Inr (Some ''a/b'')"
proof -
  have m: "matches (request ''GET'' ''/%'') (Some ''GET'')"
    by (simp add: matches_def request_def)
  have "map_option groups (exec (projr (compile ''/:id'' no_options)) ''/%'')
      = Some (Some [(''id'', Some ''%'')])"
    by code_simp
  then obtain m0
    where x: "exec (projr (compile ''/:id'' no_options)) (req_pathname (request ''GET'' ''/%''))
        = Some m0"
      and g: "groups m0 = Some [(''id'', Some ''%'')]"
    by (auto simp: request_def)
  have i: "(''id'', Some ''%'') \<in> set [(''id'', Some ''%'')]" by simp
  have ne: "''%'' \<noteq> []" by simp
  have f: "decodeURIComponent ''%'' = Inl URIError" by code_simp
  then have u: "\<forall>k w. (k, Some w) \<in> set [(''id'', Some ''%'')]
      \<longrightarrow> decodeURIComponent w \<noteq> Inl Unmodelled" by simp
  have ne2: "''a%2Fb'' \<noteq> []" by simp
  note t1 = decode_undefined_and_failure[of "''a%2Fb''" "request ''GET'' ''/%''" "Some ''GET''"
      "projr (compile ''/:id'' no_options)" m0 "[(''id'', Some ''%'')]" "''id''" "''/:id''"
      "reply ''id''" Inr]
  from t1 ne2 have "decode (Some ''a%2Fb'') = map_sum id Some (decodeURIComponent ''a%2Fb'')"
    by blast
  moreover from t1 have "decodeURIComponent ''a%2Fb'' = Inr ''a/b''" by blast
  ultimately have r2: "decode (Some ''a%2Fb'') = Inr (Some ''a/b'')" by simp
  note t2 = decode_undefined_and_failure[of "''%''" "request ''GET'' ''/%''" "Some ''GET''"
      "projr (compile ''/:id'' no_options)" m0 "[(''id'', Some ''%'')]" "''id''" "''/:id''"
      "reply ''id''" Inr]
  from t2 m x g i ne f u
  have "routeMiddleware (Some ''GET'') ''/:id'' (projr (compile ''/:id'' no_options))
         (reply ''id'') (request ''GET'' ''/%'') Inr = Inl URIError"
    by blast
  with r2 show ?thesis by simp
qed

text \<open>
  C5, as amended. With no handler the helper raises, when the route is registered, the error
  whose message names the method (\<open>ALL\<close> for \<open>app.all\<close>, the upper-cased name of the helper
  otherwise) and the path; nothing is returned, so the application keeps the routes it had.
  With at least one handler, the helper returns the application with the one new step
  appended after the steps it had when \<open>compile\<close> returns a regular expression for the
  pattern, and raises the \<open>SyntaxError\<close> of the \<open>RegExp\<close> constructor when \<open>compile\<close> raises it.
\<close>

theorem registration:
  "createRouteMethod opts method app path []
     = Inl (Error (''Route '' @ method_or_ALL method @ '' '' @ path
                   @ '' must have at least one handler''))
   \<and> (name \<in> set methods \<longrightarrow>
        (\<exists>helper. tinyRouter options name = Some helper
           \<and> helper app path [] =
               Inl (Error (''Route '' @ toUpperCase name @ '' '' @ path
                           @ '' must have at least one handler''))))
   \<and> (\<exists>helper. tinyRouter options ''all'' = Some helper
           \<and> helper app path [] =
               Inl (Error (''Route ALL '' @ path @ '' must have at least one handler'')))
   \<and> (handlers \<noteq> [] \<longrightarrow> compile path opts = Inr regexp \<longrightarrow>
        createRouteMethod opts method app path handlers =
          Inr (app\<lparr>middleware := middleware app @
                 [routeMiddleware method path regexp
                    (if length handlers = 1 then handlers ! 0 else compose handlers)]\<rparr>))
   \<and> (handlers \<noteq> [] \<longrightarrow> compile path opts = Inl SyntaxError \<longrightarrow>
        createRouteMethod opts method app path handlers = Inl SyntaxError)"
proof -
  have a: "createRouteMethod opts method app path []
     = Inl (Error (''Route '' @ method_or_ALL method @ '' '' @ path
                   @ '' must have at least one handler''))"
    by (simp add: createRouteMethod_def)
  have up: "toUpperCase name \<noteq> []" if "name \<in> set methods"
    using that by (auto simp: methods_def toUpperCase_def)
  have b: "name \<in> set methods \<longrightarrow>
        (\<exists>helper. tinyRouter options name = Some helper
           \<and> helper app path [] =
               Inl (Error (''Route '' @ toUpperCase name @ '' '' @ path
                           @ '' must have at least one handler'')))"
    using up by (auto simp: tinyRouter_def Let_def createRouteMethod_def method_or_ALL_def)
  have "''all'' \<notin> set methods" by (simp add: methods_def)
  then have c: "\<exists>helper. tinyRouter options ''all'' = Some helper
           \<and> helper app path [] =
               Inl (Error (''Route ALL '' @ path @ '' must have at least one handler''))"
    by (simp add: tinyRouter_def Let_def createRouteMethod_def method_or_ALL_def)
  have d: "handlers \<noteq> [] \<longrightarrow> compile path opts = Inr regexp \<longrightarrow>
        createRouteMethod opts method app path handlers =
          Inr (app\<lparr>middleware := middleware app @
                 [routeMiddleware method path regexp
                    (if length handlers = 1 then handlers ! 0 else compose handlers)]\<rparr>)"
    by (simp add: createRouteMethod_def createRoute_def use_def)
  have e: "handlers \<noteq> [] \<longrightarrow> compile path opts = Inl SyntaxError \<longrightarrow>
        createRouteMethod opts method app path handlers = Inl SyntaxError"
    by (simp add: createRouteMethod_def createRoute_def)
  from a b c d e show ?thesis by (intro conjI)
qed

text \<open>
  Witness for C5: \<open>app.get('/hoa')\<close> without a handler (the test ``throws when no handlers
  are provided''), with one handler, and \<open>app.get('/(', h)\<close>.
\<close>

theorem registration_witness:
  "(the (tinyRouter None ''get'')) no_routes ''/hoa'' []
     = Inl (Error ''Route GET /hoa must have at least one handler'')
   \<and> map_sum id (\<lambda>app. length (middleware app))
        (createRouteMethod no_options (Some ''GET'') no_routes ''/hoa'' [reply ''hoa'']) = Inr 1
   \<and> createRouteMethod no_options (Some ''GET'') no_routes ''/('' [reply ''hoa'']
     = Inl SyntaxError"
proof -
  have g: "''get'' \<in> set methods" by (simp add: methods_def)
  have u: "toUpperCase ''get'' = ''GET''" by code_simp
  have "\<not> isl (compile ''/hoa'' no_options)" by code_simp
  then obtain re where c: "compile ''/hoa'' no_options = Inr re"
    by (cases "compile ''/hoa'' no_options") auto
  have s: "compile ''/('' no_options = Inl SyntaxError" by code_simp
  have ne: "[reply ''hoa''] \<noteq> []" by simp
  from registration[of no_options "Some ''GET''" no_routes "''/hoa''" "''get''" None "[reply ''hoa'']" re] g u c ne
  have 1: "(the (tinyRouter None ''get'')) no_routes ''/hoa'' []
     = Inl (Error ''Route GET /hoa must have at least one handler'')"
    and 2: "map_sum id (\<lambda>app. length (middleware app))
        (createRouteMethod no_options (Some ''GET'') no_routes ''/hoa'' [reply ''hoa'']) = Inr 1"
    by (auto simp: no_routes_def)
  from registration[of no_options "Some ''GET''" no_routes "''/(''" "''get''" None "[reply ''hoa'']"] s ne
  have 3: "createRouteMethod no_options (Some ''GET'') no_routes ''/('' [reply ''hoa'']
     = Inl SyntaxError" by blast
  from 1 2 3 show ?thesis by (intro conjI)
qed

text \<open>
  Counterexample to C5 as stated (``with at least one handler, registration succeeds''): the
  patterns \<open>/(\<close> and \<open>/:id/:id\<close> with one handler. The rewriting leaves \<open>/(\<close> as it is, and the
  source given to \<open>RegExp\<close> has an unterminated group; it writes two groups of the name \<open>id\<close>
  for \<open>/:id/:id\<close>. The constructor raises \<open>SyntaxError\<close>, and so does the helper.
\<close>

theorem registration_counterexample:
  "[reply ''hoa''] \<noteq> []
   \<and> createRouteMethod no_options (Some ''GET'') no_routes ''/('' [reply ''hoa'']
     = Inl SyntaxError
   \<and> createRouteMethod no_options (Some ''GET'') no_routes ''/:id/:id'' [reply ''hoa'']
     = Inl SyntaxError"
proof -
  have "compile ''/('' no_options = Inl SyntaxError" by code_simp
  moreover have "compile ''/:id/:id'' no_options = Inl SyntaxError" by code_simp
  ultimately show ?thesis by (simp add: createRouteMethod_def createRoute_def)
qed



text \<open>
  C7. For every value of the options, the matcher compiled from \<open>/users\<close> accepts exactly the
  paths that are \<open>/users\<close>, or \<open>/users/\<close> when \<open>trailing\<close> is not \<open>false\<close>, compared letter by letter
  as the \<open>i\<close> flag says: exactly when \<open>sensitive\<close> is \<open>true\<close>, and otherwise up to the case of the
  letters. The same holds of \<open>/Hoa\<close>. So with \<open>trailing\<close> left out or \<open>true\<close>, \<open>/users\<close> and
  \<open>/users/\<close> are both accepted, and with \<open>trailing\<close> \<open>false\<close> \<open>/users/\<close> is not; with
  \<open>sensitive\<close> left out or \<open>false\<close>, \<open>/hoa\<close> and \<open>/Hoa\<close> are both accepted, and with \<open>sensitive\<close>
  \<open>true\<close> \<open>/hoa\<close> is not.
\<close>

theorem options_language:
  "\<exists>users hoa. compile ''/users'' opts = Inr users \<and> compile ''/Hoa'' opts = Inr hoa
     \<and> (\<forall>p. (exec users p \<noteq> None) =
           (map (Canonicalize (\<not> is_sensitive opts)) p
              = map (Canonicalize (\<not> is_sensitive opts)) ''/users''
            \<or> is_trailing opts
              \<and> map (Canonicalize (\<not> is_sensitive opts)) p
                  = map (Canonicalize (\<not> is_sensitive opts)) ''/users/''))
     \<and> (\<forall>p. (exec hoa p \<noteq> None) =
           (map (Canonicalize (\<not> is_sensitive opts)) p
              = map (Canonicalize (\<not> is_sensitive opts)) ''/Hoa''
            \<or> is_trailing opts
              \<and> map (Canonicalize (\<not> is_sensitive opts)) p
                  = map (Canonicalize (\<not> is_sensitive opts)) ''/Hoa/''))"
proof -
  let ?users = "\<lparr>ast = Seq Bol (lits ''/users''
                   (if is_trailing opts then Seq (Opt True (Chr CHR ''/'')) Eol else Eol)),
          ngroups = 0, names = [], ignoreCase = \<not> is_sensitive opts, global = False\<rparr>"
  let ?hoa = "\<lparr>ast = Seq Bol (lits ''/Hoa''
                   (if is_trailing opts then Seq (Opt True (Chr CHR ''/'')) Eol else Eol)),
          ngroups = 0, names = [], ignoreCase = \<not> is_sensitive opts, global = False\<rparr>"
  have u: "(exec ?users p \<noteq> None) =
           (map (Canonicalize (\<not> is_sensitive opts)) p
              = map (Canonicalize (\<not> is_sensitive opts)) ''/users''
            \<or> is_trailing opts
              \<and> map (Canonicalize (\<not> is_sensitive opts)) p
                  = map (Canonicalize (\<not> is_sensitive opts)) ''/users/'')" for p
    using static_language[of ?users "''/users''" "is_trailing opts" p] by simp
  have h: "(exec ?hoa p \<noteq> None) =
           (map (Canonicalize (\<not> is_sensitive opts)) p
              = map (Canonicalize (\<not> is_sensitive opts)) ''/Hoa''
            \<or> is_trailing opts
              \<and> map (Canonicalize (\<not> is_sensitive opts)) p
                  = map (Canonicalize (\<not> is_sensitive opts)) ''/Hoa/'')" for p
    using static_language[of ?hoa "''/Hoa''" "is_trailing opts" p] by simp
  from u h compile_users[of opts] compile_Hoa[of opts] show ?thesis by blast
qed

text \<open>
  Witness for C7: the four settings of the claim, on the paths of the claim.
\<close>

theorem options_language_witness:
  "exec (projr (compile ''/users'' no_options)) ''/users'' \<noteq> None
   \<and> exec (projr (compile ''/users'' no_options)) ''/users/'' \<noteq> None
   \<and> exec (projr (compile ''/users'' \<lparr>sensitive = None, trailing = Some False\<rparr>)) ''/users'' \<noteq> None
   \<and> exec (projr (compile ''/users'' \<lparr>sensitive = None, trailing = Some False\<rparr>)) ''/users/'' = None
   \<and> exec (projr (compile ''/Hoa'' no_options)) ''/hoa'' \<noteq> None
   \<and> exec (projr (compile ''/Hoa'' no_options)) ''/Hoa'' \<noteq> None
   \<and> exec (projr (compile ''/Hoa'' \<lparr>sensitive = Some True, trailing = None\<rparr>)) ''/Hoa'' \<noteq> None
   \<and> exec (projr (compile ''/Hoa'' \<lparr>sensitive = Some True, trailing = None\<rparr>)) ''/hoa'' = None"
proof -
  have a: "exec (projr (compile ''/users'' no_options)) ''/users'' \<noteq> None"
  proof -
    from options_language[of "no_options"] obtain users hoa
      where c: "compile ''/users'' no_options = Inr users" "compile ''/Hoa'' no_options = Inr hoa"
        and l: "(exec users ''/users'' \<noteq> None) =
           (map (Canonicalize (\<not> is_sensitive no_options)) ''/users''
              = map (Canonicalize (\<not> is_sensitive no_options)) ''/users''
            \<or> is_trailing no_options
              \<and> map (Canonicalize (\<not> is_sensitive no_options)) ''/users''
                  = map (Canonicalize (\<not> is_sensitive no_options)) ''/users/'')"
          "(exec hoa ''/users'' \<noteq> None) =
           (map (Canonicalize (\<not> is_sensitive no_options)) ''/users''
              = map (Canonicalize (\<not> is_sensitive no_options)) ''/Hoa''
            \<or> is_trailing no_options
              \<and> map (Canonicalize (\<not> is_sensitive no_options)) ''/users''
                  = map (Canonicalize (\<not> is_sensitive no_options)) ''/Hoa/'')"
      by blast
    have "(map (Canonicalize (\<not> is_sensitive no_options)) ''/users''
              = map (Canonicalize (\<not> is_sensitive no_options)) ''/users''
            \<or> is_trailing no_options
              \<and> map (Canonicalize (\<not> is_sensitive no_options)) ''/users''
                  = map (Canonicalize (\<not> is_sensitive no_options)) ''/users/'') = True"
      by code_simp
    with c l show ?thesis by simp
  qed
  have b: "exec (projr (compile ''/users'' no_options)) ''/users/'' \<noteq> None"
  proof -
    from options_language[of "no_options"] obtain users hoa
      where c: "compile ''/users'' no_options = Inr users" "compile ''/Hoa'' no_options = Inr hoa"
        and l: "(exec users ''/users/'' \<noteq> None) =
           (map (Canonicalize (\<not> is_sensitive no_options)) ''/users/''
              = map (Canonicalize (\<not> is_sensitive no_options)) ''/users''
            \<or> is_trailing no_options
              \<and> map (Canonicalize (\<not> is_sensitive no_options)) ''/users/''
                  = map (Canonicalize (\<not> is_sensitive no_options)) ''/users/'')"
          "(exec hoa ''/users/'' \<noteq> None) =
           (map (Canonicalize (\<not> is_sensitive no_options)) ''/users/''
              = map (Canonicalize (\<not> is_sensitive no_options)) ''/Hoa''
            \<or> is_trailing no_options
              \<and> map (Canonicalize (\<not> is_sensitive no_options)) ''/users/''
                  = map (Canonicalize (\<not> is_sensitive no_options)) ''/Hoa/'')"
      by blast
    have "(map (Canonicalize (\<not> is_sensitive no_options)) ''/users/''
              = map (Canonicalize (\<not> is_sensitive no_options)) ''/users''
            \<or> is_trailing no_options
              \<and> map (Canonicalize (\<not> is_sensitive no_options)) ''/users/''
                  = map (Canonicalize (\<not> is_sensitive no_options)) ''/users/'') = True"
      by code_simp
    with c l show ?thesis by simp
  qed
  have c: "exec (projr (compile ''/users'' \<lparr>sensitive = None, trailing = Some False\<rparr>)) ''/users'' \<noteq> None"
  proof -
    from options_language[of "\<lparr>sensitive = None, trailing = Some False\<rparr>"] obtain users hoa
      where c: "compile ''/users'' \<lparr>sensitive = None, trailing = Some False\<rparr> = Inr users" "compile ''/Hoa'' \<lparr>sensitive = None, trailing = Some False\<rparr> = Inr hoa"
        and l: "(exec users ''/users'' \<noteq> None) =
           (map (Canonicalize (\<not> is_sensitive \<lparr>sensitive = None, trailing = Some False\<rparr>)) ''/users''
              = map (Canonicalize (\<not> is_sensitive \<lparr>sensitive = None, trailing = Some False\<rparr>)) ''/users''
            \<or> is_trailing \<lparr>sensitive = None, trailing = Some False\<rparr>
              \<and> map (Canonicalize (\<not> is_sensitive \<lparr>sensitive = None, trailing = Some False\<rparr>)) ''/users''
                  = map (Canonicalize (\<not> is_sensitive \<lparr>sensitive = None, trailing = Some False\<rparr>)) ''/users/'')"
          "(exec hoa ''/users'' \<noteq> None) =
           (map (Canonicalize (\<not> is_sensitive \<lparr>sensitive = None, trailing = Some False\<rparr>)) ''/users''
              = map (Canonicalize (\<not> is_sensitive \<lparr>sensitive = None, trailing = Some False\<rparr>)) ''/Hoa''
            \<or> is_trailing \<lparr>sensitive = None, trailing = Some False\<rparr>
              \<and> map (Canonicalize (\<not> is_sensitive \<lparr>sensitive = None, trailing = Some False\<rparr>)) ''/users''
                  = map (Canonicalize (\<not> is_sensitive \<lparr>sensitive = None, trailing = Some False\<rparr>)) ''/Hoa/'')"
      by blast
    have "(map (Canonicalize (\<not> is_sensitive \<lparr>sensitive = None, trailing = Some False\<rparr>)) ''/users''
              = map (Canonicalize (\<not> is_sensitive \<lparr>sensitive = None, trailing = Some False\<rparr>)) ''/users''
            \<or> is_trailing \<lparr>sensitive = None, trailing = Some False\<rparr>
              \<and> map (Canonicalize (\<not> is_sensitive \<lparr>sensitive = None, trailing = Some False\<rparr>)) ''/users''
                  = map (Canonicalize (\<not> is_sensitive \<lparr>sensitive = None, trailing = Some False\<rparr>)) ''/users/'') = True"
      by code_simp
    with c l show ?thesis by simp
  qed
  have d: "exec (projr (compile ''/users'' \<lparr>sensitive = None, trailing = Some False\<rparr>)) ''/users/'' = None"
  proof -
    from options_language[of "\<lparr>sensitive = None, trailing = Some False\<rparr>"] obtain users hoa
      where c: "compile ''/users'' \<lparr>sensitive = None, trailing = Some False\<rparr> = Inr users" "compile ''/Hoa'' \<lparr>sensitive = None, trailing = Some False\<rparr> = Inr hoa"
        and l: "(exec users ''/users/'' \<noteq> None) =
           (map (Canonicalize (\<not> is_sensitive \<lparr>sensitive = None, trailing = Some False\<rparr>)) ''/users/''
              = map (Canonicalize (\<not> is_sensitive \<lparr>sensitive = None, trailing = Some False\<rparr>)) ''/users''
            \<or> is_trailing \<lparr>sensitive = None, trailing = Some False\<rparr>
              \<and> map (Canonicalize (\<not> is_sensitive \<lparr>sensitive = None, trailing = Some False\<rparr>)) ''/users/''
                  = map (Canonicalize (\<not> is_sensitive \<lparr>sensitive = None, trailing = Some False\<rparr>)) ''/users/'')"
          "(exec hoa ''/users/'' \<noteq> None) =
           (map (Canonicalize (\<not> is_sensitive \<lparr>sensitive = None, trailing = Some False\<rparr>)) ''/users/''
              = map (Canonicalize (\<not> is_sensitive \<lparr>sensitive = None, trailing = Some False\<rparr>)) ''/Hoa''
            \<or> is_trailing \<lparr>sensitive = None, trailing = Some False\<rparr>
              \<and> map (Canonicalize (\<not> is_sensitive \<lparr>sensitive = None, trailing = Some False\<rparr>)) ''/users/''
                  = map (Canonicalize (\<not> is_sensitive \<lparr>sensitive = None, trailing = Some False\<rparr>)) ''/Hoa/'')"
      by blast
    have "(map (Canonicalize (\<not> is_sensitive \<lparr>sensitive = None, trailing = Some False\<rparr>)) ''/users/''
              = map (Canonicalize (\<not> is_sensitive \<lparr>sensitive = None, trailing = Some False\<rparr>)) ''/users''
            \<or> is_trailing \<lparr>sensitive = None, trailing = Some False\<rparr>
              \<and> map (Canonicalize (\<not> is_sensitive \<lparr>sensitive = None, trailing = Some False\<rparr>)) ''/users/''
                  = map (Canonicalize (\<not> is_sensitive \<lparr>sensitive = None, trailing = Some False\<rparr>)) ''/users/'') = False"
      by code_simp
    with c l show ?thesis by simp
  qed
  have e: "exec (projr (compile ''/Hoa'' no_options)) ''/hoa'' \<noteq> None"
  proof -
    from options_language[of "no_options"] obtain users hoa
      where c: "compile ''/users'' no_options = Inr users" "compile ''/Hoa'' no_options = Inr hoa"
        and l: "(exec users ''/hoa'' \<noteq> None) =
           (map (Canonicalize (\<not> is_sensitive no_options)) ''/hoa''
              = map (Canonicalize (\<not> is_sensitive no_options)) ''/users''
            \<or> is_trailing no_options
              \<and> map (Canonicalize (\<not> is_sensitive no_options)) ''/hoa''
                  = map (Canonicalize (\<not> is_sensitive no_options)) ''/users/'')"
          "(exec hoa ''/hoa'' \<noteq> None) =
           (map (Canonicalize (\<not> is_sensitive no_options)) ''/hoa''
              = map (Canonicalize (\<not> is_sensitive no_options)) ''/Hoa''
            \<or> is_trailing no_options
              \<and> map (Canonicalize (\<not> is_sensitive no_options)) ''/hoa''
                  = map (Canonicalize (\<not> is_sensitive no_options)) ''/Hoa/'')"
      by blast
    have "(map (Canonicalize (\<not> is_sensitive no_options)) ''/hoa''
              = map (Canonicalize (\<not> is_sensitive no_options)) ''/Hoa''
            \<or> is_trailing no_options
              \<and> map (Canonicalize (\<not> is_sensitive no_options)) ''/hoa''
                  = map (Canonicalize (\<not> is_sensitive no_options)) ''/Hoa/'') = True"
      by code_simp
    with c l show ?thesis by simp
  qed
  have f: "exec (projr (compile ''/Hoa'' no_options)) ''/Hoa'' \<noteq> None"
  proof -
    from options_language[of "no_options"] obtain users hoa
      where c: "compile ''/users'' no_options = Inr users" "compile ''/Hoa'' no_options = Inr hoa"
        and l: "(exec users ''/Hoa'' \<noteq> None) =
           (map (Canonicalize (\<not> is_sensitive no_options)) ''/Hoa''
              = map (Canonicalize (\<not> is_sensitive no_options)) ''/users''
            \<or> is_trailing no_options
              \<and> map (Canonicalize (\<not> is_sensitive no_options)) ''/Hoa''
                  = map (Canonicalize (\<not> is_sensitive no_options)) ''/users/'')"
          "(exec hoa ''/Hoa'' \<noteq> None) =
           (map (Canonicalize (\<not> is_sensitive no_options)) ''/Hoa''
              = map (Canonicalize (\<not> is_sensitive no_options)) ''/Hoa''
            \<or> is_trailing no_options
              \<and> map (Canonicalize (\<not> is_sensitive no_options)) ''/Hoa''
                  = map (Canonicalize (\<not> is_sensitive no_options)) ''/Hoa/'')"
      by blast
    have "(map (Canonicalize (\<not> is_sensitive no_options)) ''/Hoa''
              = map (Canonicalize (\<not> is_sensitive no_options)) ''/Hoa''
            \<or> is_trailing no_options
              \<and> map (Canonicalize (\<not> is_sensitive no_options)) ''/Hoa''
                  = map (Canonicalize (\<not> is_sensitive no_options)) ''/Hoa/'') = True"
      by code_simp
    with c l show ?thesis by simp
  qed
  have g: "exec (projr (compile ''/Hoa'' \<lparr>sensitive = Some True, trailing = None\<rparr>)) ''/Hoa'' \<noteq> None"
  proof -
    from options_language[of "\<lparr>sensitive = Some True, trailing = None\<rparr>"] obtain users hoa
      where c: "compile ''/users'' \<lparr>sensitive = Some True, trailing = None\<rparr> = Inr users" "compile ''/Hoa'' \<lparr>sensitive = Some True, trailing = None\<rparr> = Inr hoa"
        and l: "(exec users ''/Hoa'' \<noteq> None) =
           (map (Canonicalize (\<not> is_sensitive \<lparr>sensitive = Some True, trailing = None\<rparr>)) ''/Hoa''
              = map (Canonicalize (\<not> is_sensitive \<lparr>sensitive = Some True, trailing = None\<rparr>)) ''/users''
            \<or> is_trailing \<lparr>sensitive = Some True, trailing = None\<rparr>
              \<and> map (Canonicalize (\<not> is_sensitive \<lparr>sensitive = Some True, trailing = None\<rparr>)) ''/Hoa''
                  = map (Canonicalize (\<not> is_sensitive \<lparr>sensitive = Some True, trailing = None\<rparr>)) ''/users/'')"
          "(exec hoa ''/Hoa'' \<noteq> None) =
           (map (Canonicalize (\<not> is_sensitive \<lparr>sensitive = Some True, trailing = None\<rparr>)) ''/Hoa''
              = map (Canonicalize (\<not> is_sensitive \<lparr>sensitive = Some True, trailing = None\<rparr>)) ''/Hoa''
            \<or> is_trailing \<lparr>sensitive = Some True, trailing = None\<rparr>
              \<and> map (Canonicalize (\<not> is_sensitive \<lparr>sensitive = Some True, trailing = None\<rparr>)) ''/Hoa''
                  = map (Canonicalize (\<not> is_sensitive \<lparr>sensitive = Some True, trailing = None\<rparr>)) ''/Hoa/'')"
      by blast
    have "(map (Canonicalize (\<not> is_sensitive \<lparr>sensitive = Some True, trailing = None\<rparr>)) ''/Hoa''
              = map (Canonicalize (\<not> is_sensitive \<lparr>sensitive = Some True, trailing = None\<rparr>)) ''/Hoa''
            \<or> is_trailing \<lparr>sensitive = Some True, trailing = None\<rparr>
              \<and> map (Canonicalize (\<not> is_sensitive \<lparr>sensitive = Some True, trailing = None\<rparr>)) ''/Hoa''
                  = map (Canonicalize (\<not> is_sensitive \<lparr>sensitive = Some True, trailing = None\<rparr>)) ''/Hoa/'') = True"
      by code_simp
    with c l show ?thesis by simp
  qed
  have h: "exec (projr (compile ''/Hoa'' \<lparr>sensitive = Some True, trailing = None\<rparr>)) ''/hoa'' = None"
  proof -
    from options_language[of "\<lparr>sensitive = Some True, trailing = None\<rparr>"] obtain users hoa
      where c: "compile ''/users'' \<lparr>sensitive = Some True, trailing = None\<rparr> = Inr users" "compile ''/Hoa'' \<lparr>sensitive = Some True, trailing = None\<rparr> = Inr hoa"
        and l: "(exec users ''/hoa'' \<noteq> None) =
           (map (Canonicalize (\<not> is_sensitive \<lparr>sensitive = Some True, trailing = None\<rparr>)) ''/hoa''
              = map (Canonicalize (\<not> is_sensitive \<lparr>sensitive = Some True, trailing = None\<rparr>)) ''/users''
            \<or> is_trailing \<lparr>sensitive = Some True, trailing = None\<rparr>
              \<and> map (Canonicalize (\<not> is_sensitive \<lparr>sensitive = Some True, trailing = None\<rparr>)) ''/hoa''
                  = map (Canonicalize (\<not> is_sensitive \<lparr>sensitive = Some True, trailing = None\<rparr>)) ''/users/'')"
          "(exec hoa ''/hoa'' \<noteq> None) =
           (map (Canonicalize (\<not> is_sensitive \<lparr>sensitive = Some True, trailing = None\<rparr>)) ''/hoa''
              = map (Canonicalize (\<not> is_sensitive \<lparr>sensitive = Some True, trailing = None\<rparr>)) ''/Hoa''
            \<or> is_trailing \<lparr>sensitive = Some True, trailing = None\<rparr>
              \<and> map (Canonicalize (\<not> is_sensitive \<lparr>sensitive = Some True, trailing = None\<rparr>)) ''/hoa''
                  = map (Canonicalize (\<not> is_sensitive \<lparr>sensitive = Some True, trailing = None\<rparr>)) ''/Hoa/'')"
      by blast
    have "(map (Canonicalize (\<not> is_sensitive \<lparr>sensitive = Some True, trailing = None\<rparr>)) ''/hoa''
              = map (Canonicalize (\<not> is_sensitive \<lparr>sensitive = Some True, trailing = None\<rparr>)) ''/Hoa''
            \<or> is_trailing \<lparr>sensitive = Some True, trailing = None\<rparr>
              \<and> map (Canonicalize (\<not> is_sensitive \<lparr>sensitive = Some True, trailing = None\<rparr>)) ''/hoa''
                  = map (Canonicalize (\<not> is_sensitive \<lparr>sensitive = Some True, trailing = None\<rparr>)) ''/Hoa/'') = False"
      by code_simp
    with c l show ?thesis by simp
  qed
  from a b c d e f g h show ?thesis by blast
qed



text \<open>
  C9. When the method check fails or the matcher does not match the path, the step is the
  call of \<open>next\<close> on the unchanged context: \<open>params\<close> and \<open>routePath\<close> keep their values and the
  step raises nothing of its own.
\<close>

theorem route_defers:
  assumes "createRoute method path handlers opts = Inr route"
    and "compile path opts = Inr regexp"
    and "\<not> matches ctx method \<or> exec regexp (req_pathname ctx) = None"
  shows "route ctx next = next ctx"
  using assms by (auto simp: createRoute_def routeMiddleware_def)

text \<open>
  Witness for C9: the route \<open>GET /hoa\<close> on the requests \<open>GET /hoax\<close> and \<open>POST /hoa\<close> (the tests
  for a path mismatch and for a method mismatch).
\<close>

theorem route_defers_witness:
  "projr (createRoute (Some ''GET'') ''/hoa'' [reply ''hoa''] no_options)
     (request ''GET'' ''/hoax'') Inr = Inr (request ''GET'' ''/hoax'')
   \<and> projr (createRoute (Some ''GET'') ''/hoa'' [reply ''hoa''] no_options)
     (request ''POST'' ''/hoa'') Inr = Inr (request ''POST'' ''/hoa'')"
proof -
  have "\<not> isl (compile ''/hoa'' no_options)" by code_simp
  then obtain re where c: "compile ''/hoa'' no_options = Inr re"
    by (cases "compile ''/hoa'' no_options") auto
  have r: "createRoute (Some ''GET'') ''/hoa'' [reply ''hoa''] no_options
      = Inr (projr (createRoute (Some ''GET'') ''/hoa'' [reply ''hoa''] no_options))"
    by (simp add: createRoute_def c)
  have m1: "\<not> matches (request ''POST'' ''/hoa'') (Some ''GET'')
      \<or> exec re (req_pathname (request ''POST'' ''/hoa'')) = None"
    by (simp add: matches_def request_def)
  have "exec (projr (compile ''/hoa'' no_options)) ''/hoax'' = None" by code_simp
  then have m2: "\<not> matches (request ''GET'' ''/hoax'') (Some ''GET'')
      \<or> exec re (req_pathname (request ''GET'' ''/hoax'')) = None"
    by (simp add: request_def c)
  show ?thesis
    using route_defers[OF r c m1, of Inr] route_defers[OF r c m2, of Inr] by simp
qed



end
